theory Spec2Isabelle
  imports Complex_Main "HOL-Library.AList" "HOL-Library.Sublist"
begin

section \<open>The automated-training tutorial notebook\<close>

text \<open>
  The program is the sequence of code cells of \<^verbatim>\<open>tutorials/03.auto-train-models.ipynb\<close>.
  Each cell is modelled as a function on the kernel state (the notebook's variables, the
  calls issued so far, the plotting commands issued so far) that returns the state it leaves
  behind together with either \<open>Inr ()\<close> or the exception that ended it. The Azure ML SDK,
  scikit-learn's dataset, numpy's random permutation and Python's \<^verbatim>\<open>int\<close> are parameters
  of the model, collected in the record \<open>sdk\<close>.

  What is left out: the calls of matplotlib and pandas are recorded, not executed, and do
  not raise; the constructors \<^verbatim>\<open>AutoMLConfig\<close> and \<^verbatim>\<open>Experiment\<close> build their object and do not
  raise; an SDK call does not write to the arrays it is given; floating-point numbers are
  carried around, never computed with, and are modelled as reals.
\<close>

subsection \<open>Values\<close>

type_synonym row = "real list"
type_synonym label = int

text \<open>The object returned by \<^verbatim>\<open>datasets.load_digits()\<close>.\<close>

record bunch =
  data :: "row list"
  target :: "label list"

text \<open>The object returned by \<^verbatim>\<open>Workspace.from_config()\<close>, with the attributes the notebook reads.\<close>

record workspace =
  subscription_id :: string
  ws_name :: string
  resource_group :: string
  location :: string

text \<open>Metric values returned by the service; \<^verbatim>\<open>isinstance(v, float)\<close> holds of \<open>PyFloat\<close> only.\<close>

datatype pyval = PyFloat real | PyInt int | PyStr string | PyBool bool | PyNone

fun is_float :: "pyval \<Rightarrow> bool" where
  "is_float (PyFloat _) = True"
| "is_float _ = False"

text \<open>Keyword arguments of a constructor call, in the order of the call site.\<close>

datatype arg =
    AStr string | AInt int | ABool bool | AFloat real
  | AStrList "string list" | AMatrix "row list" | AVector "label list"

type_synonym kwargs = "(string \<times> arg) list"

datatype automl_config = AutoMLConfig (config_kwargs: kwargs)

datatype aml_experiment = Experiment workspace string

text \<open>Exceptions. \<open>SdkError x\<close> is whatever the SDK call raised, \<open>x\<close> being its payload.\<close>

datatype error = SdkError string | NameError string | KeyError string | ValueError | IndexError

text \<open>Plotting commands, with the arguments of the call.\<close>

datatype cmap = Greys | gray

datatype plot_cmd =
    Figure nat nat
  | Subplot nat nat nat
  | Axhline string
  | Axvline string
  | Text int int label nat "string option"
  | Imshow "row list" cmap
  | Show

text \<open>Calls into the SDK and the dataset library, each with the arguments it is given, in the
  order they are issued.\<close>

datatype ('r, 'm) event =
    EvFromConfig
  | EvLoadDigits
  | EvAutoMLConfig kwargs
  | EvExperiment workspace string
  | EvSubmit aml_experiment automl_config bool
  | EvRunDetails 'r
  | EvGetChildren 'r
  | EvGetProperties 'r
  | EvGetMetrics 'r
  | EvGetOutput 'r
  | EvRegisterModel 'r string pyval
  | EvPredict 'm "row list"

subsection \<open>The external libraries\<close>

record ('r, 'm) sdk =
  sdk_version :: string
  from_config :: "string + workspace"
  load_digits :: bunch
  permutation :: "nat \<Rightarrow> nat \<Rightarrow> nat list"
  submit :: "aml_experiment \<Rightarrow> automl_config \<Rightarrow> bool \<Rightarrow> string + 'r"
  show_details :: "'r \<Rightarrow> string + unit"
  get_children :: "'r \<Rightarrow> string + 'r list"
  get_properties :: "'r \<Rightarrow> string + (string \<times> string) list"
  get_metrics :: "'r \<Rightarrow> string + (string \<times> pyval) list"
  get_output :: "'r \<Rightarrow> string + ('r \<times> 'm)"
  register_model :: "'r \<Rightarrow> string \<Rightarrow> pyval \<Rightarrow> string + string"
  predict :: "'m \<Rightarrow> row list \<Rightarrow> string + label list"
  py_int :: "string \<Rightarrow> int option"

subsection \<open>The kernel state\<close>

text \<open>A variable that no cell has bound yet is \<open>None\<close>; reading it raises \<open>NameError\<close>.\<close>

record ('r, 'm) nb_state =
  ws :: "workspace option"
  experiment_name :: "string option"
  project_folder :: "string option"
  var_output :: "(string \<times> string) list option"
  digits :: "bunch option"
  X_digits :: "row list option"
  y_digits :: "label list option"
  count :: "nat option"
  sample_size :: "nat option"
  Automl_config :: "automl_config option"
  var_experiment :: "aml_experiment option"
  local_run :: "'r option"
  children :: "'r list option"
  metricslist :: "(int \<times> (string \<times> pyval) list) list option"
  rundata :: "(int \<times> (string \<times> pyval) list) list option"
  best_run :: "'r option"
  fitted_model :: "'m option"
  description :: "string option"
  tags :: "pyval option"
  model_id :: "string option"
  var_n :: "nat option"
  sample_indices :: "nat list option"
  test_samples :: "row list option"
  result :: "label list option"
  var_i :: "nat option"
  font_color :: "string option"
  clr_map :: "cmap option"
  rng :: nat
  trace :: "('r, 'm) event list"
  plots :: "plot_cmd list"

definition init_state :: "('r, 'm) nb_state" where
  "init_state = \<lparr> ws = None, experiment_name = None, project_folder = None, var_output = None,
     digits = None, X_digits = None, y_digits = None, count = None, sample_size = None,
     Automl_config = None, var_experiment = None, local_run = None, children = None,
     metricslist = None, rundata = None, best_run = None, fitted_model = None,
     description = None, tags = None, model_id = None, var_n = None, sample_indices = None,
     test_samples = None, result = None, var_i = None, font_color = None, clr_map = None,
     rng = 0, trace = [], plots = [] \<rparr>"

type_synonym ('r, 'm) cell = "('r, 'm) nb_state \<Rightarrow> (error + unit) \<times> ('r, 'm) nb_state"

definition log_call :: "('r, 'm) event \<Rightarrow> ('r, 'm) nb_state \<Rightarrow> ('r, 'm) nb_state" where
  "log_call ev s = s\<lparr>trace := trace s @ [ev]\<rparr>"

definition plot :: "plot_cmd \<Rightarrow> ('r, 'm) nb_state \<Rightarrow> ('r, 'm) nb_state" where
  "plot c s = s\<lparr>plots := plots s @ [c]\<rparr>"

text \<open>Statements in sequence, and the body of a \<^verbatim>\<open>for\<close> loop over a list: the first exception
  ends the run, and the state is the one reached when it was raised.\<close>

fun for_each :: "'a list \<Rightarrow> ('a \<Rightarrow> 's \<Rightarrow> (error + unit) \<times> 's) \<Rightarrow> 's \<Rightarrow> (error + unit) \<times> 's" where
  "for_each [] body s = (Inr (), s)"
| "for_each (x # xs) body s =
     (case body x s of
        (Inl e, s') \<Rightarrow> (Inl e, s')
      | (Inr _, s') \<Rightarrow> for_each xs body s')"

definition run_cells :: "('s \<Rightarrow> (error + unit) \<times> 's) list \<Rightarrow> 's \<Rightarrow> (error + unit) \<times> 's" where
  "run_cells cs s = for_each cs (\<lambda>c. c) s"

subsection \<open>Library primitives used by the cells\<close>

text \<open>\<^verbatim>\<open>a[100:]\<close> and \<^verbatim>\<open>a[100:,:]\<close>: the rows from index 100 on, every column of each.\<close>

definition rows_from :: "nat \<Rightarrow> 'a list \<Rightarrow> 'a list" where
  "rows_from k a = drop k a"

text \<open>\<^verbatim>\<open>a[i]\<close> for a non-negative index; numpy raises IndexError out of range.\<close>

definition at_index :: "'a list \<Rightarrow> nat \<Rightarrow> error + 'a" where
  "at_index a k = (if k < length a then Inr (a ! k) else Inl IndexError)"

text \<open>\<^verbatim>\<open>a[idx]\<close> for an index array: one row per index, in the order of the indices.\<close>

fun take_rows :: "'a list \<Rightarrow> nat list \<Rightarrow> error + 'a list" where
  "take_rows a [] = Inr []"
| "take_rows a (k # ks) =
     (case at_index a k of
        Inl e \<Rightarrow> Inl e
      | Inr x \<Rightarrow> (case take_rows a ks of Inl e \<Rightarrow> Inl e | Inr xs \<Rightarrow> Inr (x # xs)))"

text \<open>\<^verbatim>\<open>r.reshape(8, 8)\<close>: eight rows of eight, or ValueError when the size is not 64.\<close>

definition reshape_8_8 :: "row \<Rightarrow> error + row list" where
  "reshape_8_8 r =
     (if length r = 64 then Inr (map (\<lambda>k. take 8 (drop (8 * k) r)) [0..<8]) else Inl ValueError)"

text \<open>\<^verbatim>\<open>d[k]\<close> on a dictionary.\<close>

definition dict_get :: "(string \<times> 'v) list \<Rightarrow> string \<Rightarrow> error + 'v" where
  "dict_get d k = (case map_of d k of None \<Rightarrow> Inl (KeyError k) | Some v \<Rightarrow> Inr v)"

text \<open>\<^verbatim>\<open>{k: v for k, v in d.items() if isinstance(v, float)}\<close>.\<close>

definition float_metrics :: "(string \<times> pyval) list \<Rightarrow> (string \<times> pyval) list" where
  "float_metrics d =
     fold (\<lambda>(k, v) acc. AList.update k v acc) (filter (\<lambda>(k, v). is_float v) d) []"

text \<open>\<^verbatim>\<open>pd.DataFrame(d).sort_index(1)\<close>: one column per key of \<open>d\<close>, columns in key order.\<close>

definition sort_index_1 :: "(int \<times> 'v) list \<Rightarrow> (int \<times> 'v) list" where
  "sort_index_1 d = sort_key fst d"

subsection \<open>The code cells\<close>

definition cell_imports :: "('r, 'm) cell" where
  "cell_imports s = (Inr (), s)"

definition cell_workspace :: "('r, 'm) sdk \<Rightarrow> ('r, 'm) cell" where
  "cell_workspace env s =
     (let s1 = log_call EvFromConfig s in
      case from_config env of
        Inl x \<Rightarrow> (Inl (SdkError x), s1)
      | Inr w \<Rightarrow>
          (Inr (), s1\<lparr>ws := Some w,
             experiment_name := Some ''automl-classifier'',
             project_folder := Some ''./automl-classifier'',
             var_output := Some
               (AList.update ''Project Directory'' ''./automl-classifier''
               (AList.update ''Location'' (location w)
               (AList.update ''Resource Group'' (resource_group w)
               (AList.update ''Workspace'' (ws_name w)
               (AList.update ''Subscription ID'' (subscription_id w)
               (AList.update ''SDK version'' (sdk_version env) []))))))\<rparr>))"

definition cell_load :: "('r, 'm) sdk \<Rightarrow> ('r, 'm) cell" where
  "cell_load env s =
     (let s1 = log_call EvLoadDigits s;
          d = load_digits env
      in (Inr (), s1\<lparr>digits := Some d,
            X_digits := Some (rows_from 100 (data d)),
            y_digits := Some (rows_from 100 (target d))\<rparr>))"

text \<open>The body of the loop of the sample display, for the index \<open>i\<close>.\<close>

definition show_sample :: "nat \<Rightarrow> ('r, 'm) cell" where
  "show_sample i s =
     (case count s of
        None \<Rightarrow> (Inl (NameError ''count''), s)
      | Some c \<Rightarrow>
         (let s1 = s\<lparr>count := Some (c + 1)\<rparr>
          in case sample_size s1 of
               None \<Rightarrow> (Inl (NameError ''sample_size''), s1)
             | Some sz \<Rightarrow>
                (let s2 = plot (Axvline []) (plot (Axhline []) (plot (Subplot 1 sz (c + 1)) s1))
                 in case y_digits s2 of
                      None \<Rightarrow> (Inl (NameError ''y_digits''), s2)
                    | Some y \<Rightarrow>
                       (case at_index y i of
                          Inl e \<Rightarrow> (Inl e, s2)
                        | Inr l \<Rightarrow>
                           (let s3 = plot (Text 2 (- 2) l 18 None) s2
                            in case X_digits s3 of
                                 None \<Rightarrow> (Inl (NameError ''X_digits''), s3)
                               | Some X \<Rightarrow>
                                  (case at_index X i of
                                     Inl e \<Rightarrow> (Inl e, s3)
                                   | Inr r \<Rightarrow>
                                      (case reshape_8_8 r of
                                         Inl e \<Rightarrow> (Inl e, s3)
                                       | Inr img \<Rightarrow>
                                          (Inr (), plot (Imshow img Greys) s3))))))))"

definition cell_show_samples :: "('r, 'm) sdk \<Rightarrow> ('r, 'm) cell" where
  "cell_show_samples env s =
     (let s1 = plot (Figure 16 6) (s\<lparr>count := Some 0, sample_size := Some 30\<rparr>)
      in case X_digits s1 of
           None \<Rightarrow> (Inl (NameError ''X_digits''), s1)
         | Some X \<Rightarrow>
            (let p = permutation env (rng s1) (length X);
                 s2 = s1\<lparr>rng := rng s1 + 1\<rparr>
             in case for_each (take 30 p) show_sample s2 of
                  (Inl e, s3) \<Rightarrow> (Inl e, s3)
                | (Inr _, s3) \<Rightarrow> (Inr (), plot Show s3)))"

text \<open>The keyword arguments of the call of \<^verbatim>\<open>AutoMLConfig\<close>, as written at the call site.\<close>

definition automl_kwargs :: "row list \<Rightarrow> label list \<Rightarrow> string \<Rightarrow> kwargs" where
  "automl_kwargs X y folder =
     [(''task'', AStr ''classification''),
      (''primary_metric'', AStr ''AUC_weighted''),
      (''max_time_sec'', AInt 12000),
      (''iterations'', AInt 20),
      (''n_cross_validations'', AInt 3),
      (''preprocess'', ABool False),
      (''exit_score'', AFloat 0.9985),
      (''blacklist_algos'', AStrList [''kNN'', ''LinearSVM'']),
      (''X'', AMatrix X),
      (''y'', AVector y),
      (''path'', AStr folder)]"

definition cell_config :: "('r, 'm) cell" where
  "cell_config s =
     (case X_digits s of
        None \<Rightarrow> (Inl (NameError ''X_digits''), s)
      | Some X \<Rightarrow>
         (case y_digits s of
            None \<Rightarrow> (Inl (NameError ''y_digits''), s)
          | Some y \<Rightarrow>
             (case project_folder s of
                None \<Rightarrow> (Inl (NameError ''project_folder''), s)
              | Some folder \<Rightarrow>
                 (Inr (), (log_call (EvAutoMLConfig (automl_kwargs X y folder)) s)
                    \<lparr>Automl_config := Some (AutoMLConfig (automl_kwargs X y folder))\<rparr>))))"

definition cell_submit :: "('r, 'm) sdk \<Rightarrow> ('r, 'm) cell" where
  "cell_submit env s =
     (case ws s of
        None \<Rightarrow> (Inl (NameError ''ws''), s)
      | Some w \<Rightarrow>
         (case experiment_name s of
            None \<Rightarrow> (Inl (NameError ''experiment_name''), s)
          | Some nm \<Rightarrow>
             (let ex = Experiment w nm;
                  s1 = (log_call (EvExperiment w nm) s)\<lparr>var_experiment := Some ex\<rparr>
              in case Automl_config s1 of
                   None \<Rightarrow> (Inl (NameError ''Automl_config''), s1)
                 | Some cfg \<Rightarrow>
                    (let s2 = log_call (EvSubmit ex cfg True) s1
                     in case submit env ex cfg True of
                          Inl x \<Rightarrow> (Inl (SdkError x), s2)
                        | Inr r \<Rightarrow> (Inr (), s2\<lparr>local_run := Some r\<rparr>)))))"

definition cell_widget :: "('r, 'm) sdk \<Rightarrow> ('r, 'm) cell" where
  "cell_widget env s =
     (case local_run s of
        None \<Rightarrow> (Inl (NameError ''local_run''), s)
      | Some r \<Rightarrow>
         (let s1 = log_call (EvRunDetails r) s
          in case show_details env r of
               Inl x \<Rightarrow> (Inl (SdkError x), s1)
             | Inr _ \<Rightarrow> (Inr (), s1)))"

text \<open>The body of the loop over the child runs, for the run \<open>r\<close>.\<close>

definition tabulate_run :: "('r, 'm) sdk \<Rightarrow> 'r \<Rightarrow> ('r, 'm) cell" where
  "tabulate_run env r s =
     (let s1 = log_call (EvGetProperties r) s
      in case get_properties env r of
           Inl x \<Rightarrow> (Inl (SdkError x), s1)
         | Inr properties \<Rightarrow>
            (let s2 = log_call (EvGetMetrics r) s1
             in case get_metrics env r of
                  Inl x \<Rightarrow> (Inl (SdkError x), s2)
                | Inr m \<Rightarrow>
                   (let metrics = float_metrics m
                    in case metricslist s2 of
                         None \<Rightarrow> (Inl (NameError ''metricslist''), s2)
                       | Some ml \<Rightarrow>
                          (case dict_get properties ''iteration'' of
                             Inl e \<Rightarrow> (Inl e, s2)
                           | Inr it \<Rightarrow>
                              (case py_int env it of
                                 None \<Rightarrow> (Inl ValueError, s2)
                               | Some k \<Rightarrow>
                                  (Inr (), s2\<lparr>metricslist :=
                                              Some (AList.update k metrics ml)\<rparr>))))))"

definition cell_metrics :: "('r, 'm) sdk \<Rightarrow> ('r, 'm) cell" where
  "cell_metrics env s =
     (case local_run s of
        None \<Rightarrow> (Inl (NameError ''local_run''), s)
      | Some r \<Rightarrow>
         (let s1 = log_call (EvGetChildren r) s
          in case get_children env r of
               Inl x \<Rightarrow> (Inl (SdkError x), s1)
             | Inr cs \<Rightarrow>
                (let s2 = s1\<lparr>children := Some cs, metricslist := Some []\<rparr>
                 in case for_each cs (tabulate_run env) s2 of
                      (Inl e, s3) \<Rightarrow> (Inl e, s3)
                    | (Inr _, s3) \<Rightarrow>
                       (case metricslist s3 of
                          None \<Rightarrow> (Inl (NameError ''metricslist''), s3)
                        | Some ml \<Rightarrow> (Inr (), s3\<lparr>rundata := Some (sort_index_1 ml)\<rparr>)))))"

definition cell_register :: "('r, 'm) sdk \<Rightarrow> ('r, 'm) cell" where
  "cell_register env s =
     (case local_run s of
        None \<Rightarrow> (Inl (NameError ''local_run''), s)
      | Some r \<Rightarrow>
         (let s1 = log_call (EvGetOutput r) s
          in case get_output env r of
               Inl x \<Rightarrow> (Inl (SdkError x), s1)
             | Inr (b, f) \<Rightarrow>
                (let s2 = s1\<lparr>best_run := Some b, fitted_model := Some f,
                             description := Some ''Automated Machine Learning Model'',
                             tags := Some PyNone\<rparr>;
                     s3 = log_call (EvRegisterModel r ''Automated Machine Learning Model'' PyNone) s2
                 in case register_model env r ''Automated Machine Learning Model'' PyNone of
                      Inl x \<Rightarrow> (Inl (SdkError x), s3)
                    | Inr mid \<Rightarrow> (Inr (), s3\<lparr>model_id := Some mid\<rparr>))))"

text \<open>The body of the loop of the prediction display, for the sample index \<open>sx\<close>. The test
  \<^verbatim>\<open>y_digits[s] != result[i]\<close> is \<open>misclassified\<close>; the source evaluates it once for the
  font colour and once for the colour map.\<close>

definition misclassified :: "label list \<Rightarrow> label list \<Rightarrow> nat \<Rightarrow> nat \<Rightarrow> error + bool" where
  "misclassified y res sx i =
     (case at_index y sx of
        Inl e \<Rightarrow> Inl e
      | Inr l \<Rightarrow> (case at_index res i of Inl e \<Rightarrow> Inl e | Inr pr \<Rightarrow> Inr (l \<noteq> pr)))"

definition show_prediction :: "nat \<Rightarrow> ('r, 'm) cell" where
  "show_prediction sx s =
     (case var_n s of
        None \<Rightarrow> (Inl (NameError ''n''), s)
      | Some n \<Rightarrow>
     (case var_i s of
        None \<Rightarrow> (Inl (NameError ''i''), s)
      | Some i \<Rightarrow>
     (let s1 = plot (Axvline []) (plot (Axhline []) (plot (Subplot 1 n (i + 1)) s))
      in case y_digits s1 of
        None \<Rightarrow> (Inl (NameError ''y_digits''), s1)
      | Some y \<Rightarrow>
     (case result s1 of
        None \<Rightarrow> (Inl (NameError ''result''), s1)
      | Some res \<Rightarrow>
     (case misclassified y res sx i of
        Inl e \<Rightarrow> (Inl e, s1)
      | Inr wrong1 \<Rightarrow>
     (let s2 = s1\<lparr>font_color := Some (if wrong1 then ''red'' else ''black'')\<rparr>
      in case misclassified y res sx i of
        Inl e \<Rightarrow> (Inl e, s2)
      | Inr wrong2 \<Rightarrow>
     (let s3 = s2\<lparr>clr_map := Some (if wrong2 then gray else Greys)\<rparr>
      in case at_index res i of
        Inl e \<Rightarrow> (Inl e, s3)
      | Inr pr \<Rightarrow>
     (let s4 = plot (Text 2 (- 2) pr 18 (font_color s3)) s3
      in case X_digits s4 of
        None \<Rightarrow> (Inl (NameError ''X_digits''), s4)
      | Some X \<Rightarrow>
     (case at_index X sx of
        Inl e \<Rightarrow> (Inl e, s4)
      | Inr r \<Rightarrow>
     (case reshape_8_8 r of
        Inl e \<Rightarrow> (Inl e, s4)
      | Inr img \<Rightarrow>
     (case clr_map s4 of
        None \<Rightarrow> (Inl (NameError ''clr_map''), s4)
      | Some cm \<Rightarrow>
          (Inr (), (plot (Imshow img cm) s4)\<lparr>var_i := Some (i + 1)\<rparr>))))))))))))"

definition cell_test :: "('r, 'm) sdk \<Rightarrow> ('r, 'm) cell" where
  "cell_test env s =
     (let s1 = s\<lparr>var_n := Some 30\<rparr>
      in case X_digits s1 of
           None \<Rightarrow> (Inl (NameError ''X_digits''), s1)
         | Some X \<Rightarrow>
            (let idx = take 30 (permutation env (rng s1) (length X));
                 s2 = s1\<lparr>rng := rng s1 + 1, sample_indices := Some idx\<rparr>
             in case take_rows X idx of
                  Inl e \<Rightarrow> (Inl e, s2)
                | Inr ts \<Rightarrow>
                   (let s3 = s2\<lparr>test_samples := Some ts\<rparr>
                    in case fitted_model s3 of
                         None \<Rightarrow> (Inl (NameError ''fitted_model''), s3)
                       | Some f \<Rightarrow>
                          (let s4 = log_call (EvPredict f ts) s3
                           in case predict env f ts of
                                Inl x \<Rightarrow> (Inl (SdkError x), s4)
                              | Inr res \<Rightarrow>
                                 (let s5 = plot (Figure 20 1)
                                             (s4\<lparr>result := Some res, var_i := Some 0\<rparr>)
                                  in case for_each idx show_prediction s5 of
                                       (Inl e, s6) \<Rightarrow> (Inl e, s6)
                                     | (Inr _, s6) \<Rightarrow> (Inr (), plot Show s6))))))"

subsection \<open>The notebook\<close>

text \<open>The code cells in the order of the file; running the notebook runs them in this order and
  stops at the first exception.\<close>

definition notebook :: "('r, 'm) sdk \<Rightarrow> ('r, 'm) cell list" where
  "notebook env =
     [cell_imports, cell_workspace env, cell_load env, cell_show_samples env, cell_config,
      cell_submit env, cell_widget env, cell_metrics env, cell_register env, cell_test env]"

definition run_notebook :: "('r, 'm) sdk \<Rightarrow> (error + unit) \<times> ('r, 'm) nb_state" where
  "run_notebook env = run_cells (notebook env) init_state"

text \<open>The value that the settings table of the notebook's text gives for \<^verbatim>\<open>exit_score\<close>.\<close>

definition documented_exit_score :: real where
  "documented_exit_score = 0.995"

subsection \<open>What a run has done\<close>

text \<open>What the SDK answers to a recorded call: \<open>Some x\<close> when the call raises \<open>x\<close>.\<close>

definition raised :: "string + 'a \<Rightarrow> string option" where
  "raised a = (case a of Inl x \<Rightarrow> Some x | Inr _ \<Rightarrow> None)"

fun call_raises :: "('r, 'm) sdk \<Rightarrow> ('r, 'm) event \<Rightarrow> string option" where
  "call_raises env EvFromConfig = raised (from_config env)"
| "call_raises env EvLoadDigits = None"
| "call_raises env (EvAutoMLConfig kw) = None"
| "call_raises env (EvExperiment w nm) = None"
| "call_raises env (EvSubmit ex cfg so) = raised (submit env ex cfg so)"
| "call_raises env (EvRunDetails r) = raised (show_details env r)"
| "call_raises env (EvGetChildren r) = raised (get_children env r)"
| "call_raises env (EvGetProperties r) = raised (get_properties env r)"
| "call_raises env (EvGetMetrics r) = raised (get_metrics env r)"
| "call_raises env (EvGetOutput r) = raised (get_output env r)"
| "call_raises env (EvRegisterModel r d t) = raised (register_model env r d t)"
| "call_raises env (EvPredict f rows) = raised (predict env f rows)"

text \<open>The outcome of a run agrees with the calls it issued: no call but the last one raised,
  and the run ended with \<open>SdkError x\<close> exactly when the last call raised \<open>x\<close>.\<close>

definition all_returned :: "('r, 'm) sdk \<Rightarrow> ('r, 'm) event list \<Rightarrow> bool" where
  "all_returned env tr \<longleftrightarrow> list_all (\<lambda>ev. call_raises env ev = None) tr"

fun outcome_agrees :: "('r, 'm) sdk \<Rightarrow> error + unit \<Rightarrow> ('r, 'm) event list \<Rightarrow> bool" where
  "outcome_agrees env (Inl (SdkError x)) tr \<longleftrightarrow>
     tr \<noteq> [] \<and> all_returned env (butlast tr) \<and> call_raises env (last tr) = Some x"
| "outcome_agrees env _ tr \<longleftrightarrow> all_returned env tr"

text \<open>The training arrays, the project folder and the configuration, once bound, are the
  ones the load, workspace and configuration cells bind.\<close>

definition training_X :: "('r, 'm) sdk \<Rightarrow> row list" where
  "training_X env = drop 100 (data (load_digits env))"

definition training_y :: "('r, 'm) sdk \<Rightarrow> label list" where
  "training_y env = drop 100 (target (load_digits env))"

definition submitted_config :: "('r, 'm) sdk \<Rightarrow> automl_config" where
  "submitted_config env =
     AutoMLConfig (automl_kwargs (training_X env) (training_y env) ''./automl-classifier'')"

fun event_ok :: "('r, 'm) sdk \<Rightarrow> ('r, 'm) event \<Rightarrow> bool" where
  "event_ok env (EvAutoMLConfig kw) \<longleftrightarrow>
     kw = automl_kwargs (training_X env) (training_y env) ''./automl-classifier''"
| "event_ok env (EvSubmit ex cfg so) \<longleftrightarrow> cfg = submitted_config env \<and> so"
| "event_ok env (EvPredict f rows) \<longleftrightarrow> list_all (\<lambda>r. r \<in> set (training_X env)) rows"
| "event_ok env _ \<longleftrightarrow> True"

definition bound_ok :: "('r, 'm) sdk \<Rightarrow> ('r, 'm) nb_state \<Rightarrow> bool" where
  "bound_ok env s \<longleftrightarrow>
     (X_digits s = None \<or> X_digits s = Some (training_X env)) \<and>
     (y_digits s = None \<or> y_digits s = Some (training_y env)) \<and>
     (project_folder s = None \<or> project_folder s = Some ''./automl-classifier'') \<and>
     (Automl_config s = None \<or> Automl_config s = Some (submitted_config env)) \<and>
     list_all (event_ok env) (trace s)"

subsection \<open>A small concrete environment\<close>

text \<open>A dataset of 103 rows, a service that returns two child runs, and a model that predicts
  the label 1 for every sample.\<close>

definition tiny_digits :: bunch where
  "tiny_digits =
     \<lparr> data = replicate 100 (replicate 64 0) @ [replicate 64 1, replicate 64 2, replicate 64 3],
       target = replicate 100 0 @ [1, 2, 3] \<rparr>"

definition tiny_sdk :: "(nat, unit) sdk" where
  "tiny_sdk =
     \<lparr> sdk_version = ''1.0'',
       from_config = Inr \<lparr> subscription_id = ''sub'', ws_name = ''w'',
                            resource_group = ''rg'', location = ''loc'' \<rparr>,
       load_digits = tiny_digits,
       permutation = (\<lambda>seed k. if seed = 0 then rev [0..<k] else [0..<k]),
       submit = (\<lambda>ex cfg so. Inr 0),
       show_details = (\<lambda>r. Inr ()),
       get_children = (\<lambda>r. Inr [1, 2]),
       get_properties = (\<lambda>r. Inr [(''iteration'', if r = 1 then ''0'' else ''1'')]),
       get_metrics = (\<lambda>r. Inr [(''AUC_weighted'', PyFloat 0.9), (''note'', PyStr ''x'')]),
       get_output = (\<lambda>r. Inr (2, ())),
       register_model = (\<lambda>r d t. Inr ''model-1''),
       predict = (\<lambda>f rows. Inr (map (\<lambda>_. 1) rows)),
       py_int = (\<lambda>t. if t = ''0'' then Some 0 else if t = ''1'' then Some 1 else None) \<rparr>"

text \<open>The states of that run after the data-load cell and after the configuration cell.\<close>

definition tiny_loaded :: "(nat, unit) nb_state" where
  "tiny_loaded = snd (run_cells (take 3 (notebook tiny_sdk)) init_state)"

definition tiny_configured :: "(nat, unit) nb_state" where
  "tiny_configured = snd (run_cells (take 5 (notebook tiny_sdk)) init_state)"

text \<open>The same environment with a model that predicts every label right; and a state in
  which one sample with the true label 1 is about to be displayed, the predictions being
  \<open>res\<close>.\<close>

definition display_state :: "label list \<Rightarrow> (nat, unit) nb_state" where
  "display_state res =
     init_state\<lparr>X_digits := Some [replicate 64 1], y_digits := Some [1],
       count := Some 0, sample_size := Some 30,
       var_n := Some 30, var_i := Some 0, result := Some res\<rparr>"

definition exact_sdk :: "(nat, unit) sdk" where
  "exact_sdk = tiny_sdk\<lparr>predict := (\<lambda>f rows. Inr [1, 2, 3])\<rparr>"

text \<open>The integer value of the \<^verbatim>\<open>iteration\<close> property of a run, when the run has one.\<close>

definition iteration_of :: "('r, 'm) sdk \<Rightarrow> 'r \<Rightarrow> int option" where
  "iteration_of env r =
     (case get_properties env r of
        Inl _ \<Rightarrow> None
      | Inr properties \<Rightarrow>
         (case map_of properties ''iteration'' of None \<Rightarrow> None | Some it \<Rightarrow> py_int env it))"

text \<open>An environment whose two child runs carry the same iteration number, a state in which
  only \<open>local_run\<close> is bound, and an environment whose job submission raises.\<close>

definition dup_sdk :: "(nat, unit) sdk" where
  "dup_sdk =
     tiny_sdk\<lparr>get_properties := (\<lambda>r. Inr [(''iteration'', ''0'')]),
              get_metrics := (\<lambda>r. Inr [(''AUC_weighted'', PyFloat (if r = 1 then 0.5 else 0.9))])\<rparr>"

definition submitted_state :: "(nat, unit) nb_state" where
  "submitted_state = init_state\<lparr>local_run := Some 0\<rparr>"

definition failing_sdk :: "(nat, unit) sdk" where
  "failing_sdk = tiny_sdk\<lparr>submit := (\<lambda>ex cfg so. Inl ''quota exhausted'')\<rparr>"

text \<open>The calls of a complete run, in order.\<close>

definition child_calls :: "'r list \<Rightarrow> ('r, 'm) event list" where
  "child_calls cs = concat (map (\<lambda>r. [EvGetProperties r, EvGetMetrics r]) cs)"

definition full_trace ::
    "workspace \<Rightarrow> string \<Rightarrow> kwargs \<Rightarrow> automl_config \<Rightarrow> 'r \<Rightarrow> 'r list \<Rightarrow> 'm \<Rightarrow> row list
       \<Rightarrow> ('r, 'm) event list" where
  "full_trace w nm kw cfg r0 cs f rows =
     [EvFromConfig, EvLoadDigits, EvAutoMLConfig kw,
      EvExperiment w nm, EvSubmit (Experiment w nm) cfg True,
      EvRunDetails r0, EvGetChildren r0]
     @ child_calls cs
     @ [EvGetOutput r0, EvRegisterModel r0 ''Automated Machine Learning Model'' PyNone,
        EvPredict f rows]"

text \<open>A list of calls is in order when it is an initial part of the calls of a complete run,
  and all of them when the run has completed.\<close>

definition in_order :: "error + unit \<Rightarrow> ('r, 'm) event list \<Rightarrow> bool" where
  "in_order r tr \<longleftrightarrow>
     (\<exists>w nm kw cfg r0 cs f rows.
        prefix tr (full_trace w nm kw cfg r0 cs f rows) \<and>
        (r = Inr () \<longrightarrow> tr = full_trace w nm kw cfg r0 cs f rows))"

fun is_submit :: "('r, 'm) event \<Rightarrow> bool" where
  "is_submit (EvSubmit _ _ _) = True"
| "is_submit _ = False"

text \<open>An environment with a dataset of 140 rows, so that 40 are left for training and the
  displays are cut to 30 samples, and the state of its run after the cell that registers
  the model, where the fitted model is bound.\<close>

definition wide_digits :: bunch where
  "wide_digits =
     \<lparr> data = replicate 100 (replicate 64 0) @ replicate 20 (replicate 64 1)
                @ replicate 20 (replicate 64 2),
       target = replicate 100 0 @ replicate 20 1 @ replicate 20 2 \<rparr>"

definition wide_sdk :: "(nat, unit) sdk" where
  "wide_sdk = tiny_sdk\<lparr>load_digits := wide_digits\<rparr>"

definition wide_registered :: "(nat, unit) nb_state" where
  "wide_registered = snd (run_cells (take 9 (notebook wide_sdk)) init_state)"

section \<open>Properties\<close>

subsection \<open>Loops and sequences of cells\<close>

lemma for_each_post:
  assumes "\<And>x s r s'. x \<in> set xs \<Longrightarrow> Q (Inr ()) s \<Longrightarrow> body x s = (r, s') \<Longrightarrow> Q r s'"
    and "Q (Inr ()) s" and "for_each xs body s = (r, s')"
  shows "Q r s'"
  using assms
proof (induction xs arbitrary: s)
  case Nil
  then show ?case by simp
next
  case (Cons x xs)
  obtain r1 s1 where b: "body x s = (r1, s1)" by (cases "body x s")
  have q1: "Q r1 s1" using Cons.prems(1)[of x s r1 s1] Cons.prems(2) b by simp
  show ?case
  proof (cases r1)
    case (Inl e)
    with b Cons.prems(3) have "s' = s1" "r = r1" by simp_all
    with q1 show ?thesis by simp
  next
    case (Inr u)
    with b Cons.prems(3) have run: "for_each xs body s1 = (r, s')" by simp
    have step: "\<And>y t q t'. y \<in> set xs \<Longrightarrow> Q (Inr ()) t \<Longrightarrow> body y t = (q, t') \<Longrightarrow> Q q t'"
      using Cons.prems(1) by (meson list.set_intros(2))
    from q1 Inr have "Q (Inr ()) s1" by simp
    from Cons.IH[OF step this run] show ?thesis .
  qed
qed

lemma for_each_inv:
  assumes "\<And>x s r s'. x \<in> set xs \<Longrightarrow> I s \<Longrightarrow> body x s = (r, s') \<Longrightarrow> I s'"
    and "I s" and "for_each xs body s = (r, s')"
  shows "I s'"
  using for_each_post [where Q = "\<lambda>_. I", OF assms(1) assms(2) assms(3)] by simp

lemma run_cells_inv:
  assumes "\<And>c s r s'. c \<in> set cs \<Longrightarrow> I s \<Longrightarrow> c s = (r, s') \<Longrightarrow> I s'"
    and "I s" and "run_cells cs s = (r, s')"
  shows "I s'"
  using for_each_inv [where body = "\<lambda>c. c" and I = I, OF assms(1) assms(2)] assms(3)
  by (simp add: run_cells_def)

lemma for_each_append:
  "for_each (xs @ ys) body s =
     (case for_each xs body s of (Inl e, s') \<Rightarrow> (Inl e, s') | (Inr _, s') \<Rightarrow> for_each ys body s')"
  by (induction xs arbitrary: s) (auto split: prod.splits sum.splits)

lemma run_cells_append:
  "run_cells (cs @ ds) s =
     (case run_cells cs s of (Inl e, s') \<Rightarrow> (Inl e, s') | (Inr _, s') \<Rightarrow> run_cells ds s')"
  unfolding run_cells_def by (rule for_each_append)

lemma take_rows_Inr:
  "take_rows a ks = Inr xs \<Longrightarrow> xs = map ((!) a) ks \<and> list_all (\<lambda>k. k < length a) ks"
  by (induction ks arbitrary: xs) (auto simp: at_index_def split: sum.splits if_splits)

lemma take_rows_Inl:
  "take_rows a ks = Inl e \<Longrightarrow> e = IndexError \<and> \<not> list_all (\<lambda>k. k < length a) ks"
  by (induction ks) (auto simp: at_index_def split: sum.splits if_splits)

text \<open>Every cell keeps \<open>bound_ok\<close>, so it holds in every state a run reaches.\<close>

lemma bound_ok_show_sample:
  "bound_ok env s \<Longrightarrow> show_sample i s = (r, s') \<Longrightarrow> bound_ok env s'"
  by (auto simp: show_sample_def bound_ok_def plot_def Let_def split: option.splits sum.splits)

lemma bound_ok_show_prediction:
  "bound_ok env s \<Longrightarrow> show_prediction i s = (r, s') \<Longrightarrow> bound_ok env s'"
  by (auto simp: show_prediction_def bound_ok_def plot_def Let_def split: option.splits sum.splits)

lemma bound_ok_tabulate_run:
  "bound_ok env s \<Longrightarrow> tabulate_run env x s = (r, s') \<Longrightarrow> bound_ok env s'"
  by (auto simp: tabulate_run_def bound_ok_def log_call_def Let_def split: option.splits sum.splits)

lemma bound_ok_imports: "bound_ok env s \<Longrightarrow> cell_imports s = (r, s') \<Longrightarrow> bound_ok env s'"
  by (auto simp: cell_imports_def)

lemma bound_ok_workspace: "bound_ok env s \<Longrightarrow> cell_workspace env s = (r, s') \<Longrightarrow> bound_ok env s'"
  by (auto simp: cell_workspace_def bound_ok_def log_call_def Let_def split: sum.splits)

lemma bound_ok_load: "bound_ok env s \<Longrightarrow> cell_load env s = (r, s') \<Longrightarrow> bound_ok env s'"
  by (auto simp: cell_load_def bound_ok_def log_call_def Let_def rows_from_def
        training_X_def training_y_def)

lemma bound_ok_plot [simp]: "bound_ok env (plot c s) = bound_ok env s"
  by (simp add: bound_ok_def plot_def)

lemma bound_ok_show_samples:
  assumes "bound_ok env s" and "cell_show_samples env s = (r, s')"
  shows "bound_ok env s'"
proof (cases "X_digits s")
  case None
  with assms show ?thesis
    by (auto simp: cell_show_samples_def plot_def bound_ok_def Let_def)
next
  case (Some X)
  define s2 where "s2 = (plot (Figure 16 6) (s\<lparr>count := Some 0, sample_size := Some 30\<rparr>))
                          \<lparr>rng := rng s + 1\<rparr>"
  have b2: "bound_ok env s2" using assms(1) by (simp add: s2_def bound_ok_def plot_def)
  obtain r3 s3 where loop:
    "for_each (take 30 (permutation env (rng s) (length X))) show_sample s2 = (r3, s3)"
    by (cases "for_each (take 30 (permutation env (rng s) (length X))) show_sample s2")
  have b3: "bound_ok env s3"
    by (rule for_each_inv [where I = "bound_ok env", OF _ b2 loop])
       (erule (1) bound_ok_show_sample)
  have "s' = s3 \<or> s' = plot Show s3"
    using assms(2) Some loop
    by (auto simp: cell_show_samples_def Let_def s2_def plot_def split: sum.splits)
  with b3 show ?thesis by auto
qed

lemma bound_ok_config: "bound_ok env s \<Longrightarrow> cell_config s = (r, s') \<Longrightarrow> bound_ok env s'"
  by (auto simp: cell_config_def bound_ok_def log_call_def submitted_config_def
           split: option.splits)

lemma bound_ok_submit: "bound_ok env s \<Longrightarrow> cell_submit env s = (r, s') \<Longrightarrow> bound_ok env s'"
  by (auto simp: cell_submit_def bound_ok_def log_call_def Let_def
           split: option.splits sum.splits)

lemma bound_ok_widget: "bound_ok env s \<Longrightarrow> cell_widget env s = (r, s') \<Longrightarrow> bound_ok env s'"
  by (auto simp: cell_widget_def bound_ok_def log_call_def Let_def
           split: option.splits sum.splits)

lemma bound_ok_metrics:
  assumes "bound_ok env s" and "cell_metrics env s = (r, s')"
  shows "bound_ok env s'"
proof (cases "local_run s")
  case None
  with assms show ?thesis by (simp add: cell_metrics_def)
next
  case (Some r0)
  show ?thesis
  proof (cases "get_children env r0")
    case (Inl x)
    with assms Some show ?thesis
      by (auto simp: cell_metrics_def bound_ok_def log_call_def Let_def)
  next
    case (Inr cs)
    define s2 where "s2 = (log_call (EvGetChildren r0) s)\<lparr>children := Some cs, metricslist := Some []\<rparr>"
    have b2: "bound_ok env s2" using assms(1) by (simp add: s2_def bound_ok_def log_call_def)
    obtain r3 s3 where loop: "for_each cs (tabulate_run env) s2 = (r3, s3)"
      by (cases "for_each cs (tabulate_run env) s2")
    have b3: "bound_ok env s3"
      by (rule for_each_inv [where I = "bound_ok env", OF _ b2 loop])
         (erule (1) bound_ok_tabulate_run)
    have "s' = s3 \<or> (\<exists>ml. s' = s3\<lparr>rundata := Some ml\<rparr>)"
      using assms(2) Some Inr loop
      by (auto simp: cell_metrics_def Let_def s2_def split: sum.splits option.splits)
    with b3 show ?thesis by (auto simp: bound_ok_def)
  qed
qed

lemma bound_ok_register: "bound_ok env s \<Longrightarrow> cell_register env s = (r, s') \<Longrightarrow> bound_ok env s'"
  by (auto simp: cell_register_def bound_ok_def log_call_def Let_def
           split: option.splits sum.splits prod.splits)

lemma bound_ok_test:
  assumes "bound_ok env s" and "cell_test env s = (r, s')"
  shows "bound_ok env s'"
proof (cases "X_digits s")
  case None
  with assms show ?thesis by (auto simp: cell_test_def bound_ok_def Let_def)
next
  case (Some X)
  with assms(1) have X: "X = training_X env" by (simp add: bound_ok_def)
  define idx where "idx = take 30 (permutation env (rng s) (length X))"
  define s2 where "s2 = s\<lparr>var_n := Some 30, rng := rng s + 1, sample_indices := Some idx\<rparr>"
  have b2: "bound_ok env s2" using assms(1) by (simp add: s2_def bound_ok_def)
  show ?thesis
  proof (cases "take_rows X idx")
    case (Inl e)
    with assms(2) Some have "s' = s2"
      by (simp add: cell_test_def Let_def s2_def idx_def)
    with b2 show ?thesis by simp
  next
    case (Inr ts)
    from take_rows_Inr [OF Inr] have ts: "list_all (\<lambda>r. r \<in> set (training_X env)) ts"
      by (auto simp: X list_all_iff)
    define s3 where "s3 = s2\<lparr>test_samples := Some ts\<rparr>"
    have b3: "bound_ok env s3" using b2 by (simp add: s3_def bound_ok_def)
    show ?thesis
    proof (cases "fitted_model s")
      case None
      with assms(2) Some Inr have "s' = s3"
        by (simp add: cell_test_def Let_def s2_def s3_def idx_def)
      with b3 show ?thesis by simp
    next
      case f: (Some f)
      define s4 where "s4 = log_call (EvPredict f ts) s3"
      have b4: "bound_ok env s4" using b3 ts by (simp add: s4_def bound_ok_def log_call_def)
      show ?thesis
      proof (cases "predict env f ts")
        case (Inl x)
        with assms(2) Some Inr f have "s' = s4"
          by (simp add: cell_test_def Let_def s2_def s3_def s4_def idx_def)
        with b4 show ?thesis by simp
      next
        case res: (Inr res)
        define s5 where "s5 = plot (Figure 20 1) (s4\<lparr>result := Some res, var_i := Some 0\<rparr>)"
        have b5: "bound_ok env s5" using b4 by (simp add: s5_def bound_ok_def plot_def)
        obtain r6 s6 where loop: "for_each idx show_prediction s5 = (r6, s6)"
          by (cases "for_each idx show_prediction s5")
        have b6: "bound_ok env s6"
          by (rule for_each_inv [where I = "bound_ok env", OF _ b5 loop])
             (erule (1) bound_ok_show_prediction)
        have "s' = s6 \<or> s' = plot Show s6"
          using assms(2) Some Inr f res loop
          by (auto simp: cell_test_def Let_def s2_def s3_def s4_def s5_def idx_def split: sum.splits)
        with b6 show ?thesis by auto
      qed
    qed
  qed
qed

lemma bound_ok_notebook:
  assumes "c \<in> set (notebook env)" and "bound_ok env s" and "c s = (r, s')"
  shows "bound_ok env s'"
  using assms
  by (auto simp: notebook_def
      intro: bound_ok_imports bound_ok_workspace bound_ok_load bound_ok_show_samples bound_ok_config
        bound_ok_submit bound_ok_widget bound_ok_metrics bound_ok_register bound_ok_test)

lemma bound_ok_init: "bound_ok env init_state"
  by (simp add: bound_ok_def init_state_def)

lemma bound_ok_run:
  assumes "set cs \<subseteq> set (notebook env)" and "run_cells cs init_state = (r, s)"
  shows "bound_ok env s"
proof (rule run_cells_inv [where I = "bound_ok env", OF _ bound_ok_init assms(2)])
  fix c t q t'
  assume "c \<in> set cs" and b: "bound_ok env t" and c: "c t = (q, t')"
  with assms(1) have "c \<in> set (notebook env)" by auto
  from bound_ok_notebook [OF this b c] show "bound_ok env t'" .
qed

subsection \<open>The data-load stage\<close>

lemma cell_load_result:
  "cell_load env s =
     (Inr (), (log_call EvLoadDigits s)\<lparr>digits := Some (load_digits env),
        X_digits := Some (drop 100 (data (load_digits env))),
        y_digits := Some (drop 100 (target (load_digits env)))\<rparr>)"
  by (simp add: cell_load_def rows_from_def Let_def)

text \<open>
  C1, as the code has it. The load stage binds \<open>X_digits\<close> and \<open>y_digits\<close> to the rows and
  labels of the sample dataset from index 100 on: row \<open>k\<close> of \<open>X_digits\<close> is row \<open>100 + k\<close> of
  \<open>digits.data\<close>, and entry \<open>k\<close> of \<open>y_digits\<close> is entry \<open>100 + k\<close> of \<open>digits.target\<close>. The first
  100 rows and labels are left out.
\<close>

theorem load_stage_skips_first_100_rows:
  "fst (cell_load env s) = Inr () \<and>
   digits (snd (cell_load env s)) = Some (load_digits env) \<and>
   X_digits (snd (cell_load env s)) = Some (drop 100 (data (load_digits env))) \<and>
   y_digits (snd (cell_load env s)) = Some (drop 100 (target (load_digits env))) \<and>
   (\<forall>k. 100 + k < length (data (load_digits env)) \<longrightarrow>
        drop 100 (data (load_digits env)) ! k = data (load_digits env) ! (100 + k)) \<and>
   (\<forall>k. 100 + k < length (target (load_digits env)) \<longrightarrow>
        drop 100 (target (load_digits env)) ! k = target (load_digits env) ! (100 + k))"
  by (simp add: cell_load_result)

theorem load_stage_skips_first_100_rows_witness:
  "X_digits (snd (cell_load tiny_sdk init_state))
     = Some [replicate 64 1, replicate 64 2, replicate 64 3] \<and>
   y_digits (snd (cell_load tiny_sdk init_state)) = Some [1, 2, 3] \<and>
   100 + 2 < length (data (load_digits tiny_sdk)) \<and>
   drop 100 (data (load_digits tiny_sdk)) ! 2 = data (load_digits tiny_sdk) ! (100 + 2)"
  using load_stage_skips_first_100_rows [of tiny_sdk init_state]
  by (simp add: cell_load_result tiny_sdk_def tiny_digits_def nth_append)

text \<open>
  C1 as stated fails: on a dataset of 103 rows the load stage binds three rows and three
  labels, and row 0 and label 0 of the dataset are in neither array.
\<close>

theorem load_in_full_counterexample:
  "X_digits (snd (cell_load tiny_sdk init_state)) \<noteq> Some (data (load_digits tiny_sdk)) \<and>
   y_digits (snd (cell_load tiny_sdk init_state)) \<noteq> Some (target (load_digits tiny_sdk)) \<and>
   data (load_digits tiny_sdk) ! 0 \<notin> set (the (X_digits (snd (cell_load tiny_sdk init_state)))) \<and>
   target (load_digits tiny_sdk) ! 0 \<notin> set (the (y_digits (snd (cell_load tiny_sdk init_state))))"
  by (simp add: cell_load_result tiny_sdk_def tiny_digits_def nth_append)

subsection \<open>The configuration\<close>

lemma tiny_loaded_vars:
  "X_digits tiny_loaded = Some [replicate 64 1, replicate 64 2, replicate 64 3]"
  "y_digits tiny_loaded = Some [1, 2, 3]"
  "project_folder tiny_loaded = Some ''./automl-classifier''"
  by (simp_all add: tiny_loaded_def notebook_def run_cells_def cell_imports_def
        cell_workspace_def cell_load_result log_call_def tiny_sdk_def tiny_digits_def)

lemma cell_config_ok:
  assumes "X_digits s = Some X" and "y_digits s = Some y" and "project_folder s = Some folder"
  shows "cell_config s =
           (Inr (), (log_call (EvAutoMLConfig (automl_kwargs X y folder)) s)
              \<lparr>Automl_config := Some (AutoMLConfig (automl_kwargs X y folder))\<rparr>)"
  using assms by (simp add: cell_config_def)

lemma cell_config_success:
  assumes "fst (cell_config s) = Inr ()"
  shows "\<exists>X y folder. X_digits s = Some X \<and> y_digits s = Some y \<and> project_folder s = Some folder"
  using assms by (auto simp: cell_config_def split: option.splits)

text \<open>
  C9. Whenever the configuration cell completes, the \<^verbatim>\<open>exit_score\<close> it passes to
  \<^verbatim>\<open>AutoMLConfig\<close> is 0.9985; the settings table of the notebook documents 0.995; the two
  differ.
\<close>

theorem exit_score_differs_from_documented:
  assumes "fst (cell_config s) = Inr ()"
  shows "\<exists>cfg. Automl_config (snd (cell_config s)) = Some cfg \<and>
           map_of (config_kwargs cfg) ''exit_score'' = Some (AFloat 0.9985) \<and>
           documented_exit_score = 0.995 \<and>
           map_of (config_kwargs cfg) ''exit_score'' \<noteq> Some (AFloat documented_exit_score)"
proof -
  from cell_config_success [OF assms] obtain X y folder
    where "X_digits s = Some X" "y_digits s = Some y" "project_folder s = Some folder"
    by blast
  then have "Automl_config (snd (cell_config s)) = Some (AutoMLConfig (automl_kwargs X y folder))"
    by (simp add: cell_config_ok)
  then show ?thesis
    by (simp add: automl_kwargs_def documented_exit_score_def)
qed

theorem exit_score_differs_from_documented_witness:
  "fst (cell_config tiny_loaded) = Inr () \<and>
   (\<exists>cfg. Automl_config (snd (cell_config tiny_loaded)) = Some cfg \<and>
           map_of (config_kwargs cfg) ''exit_score'' = Some (AFloat 0.9985) \<and>
           documented_exit_score = 0.995 \<and>
           map_of (config_kwargs cfg) ''exit_score'' \<noteq> Some (AFloat documented_exit_score))"
proof -
  have h: "fst (cell_config tiny_loaded) = Inr ()"
    by (simp add: cell_config_ok tiny_loaded_vars)
  from exit_score_differs_from_documented [OF h] h show ?thesis by blast
qed

subsection \<open>The training arrays through the stages\<close>

text \<open>The cells after the load cell leave the two arrays as they are.\<close>

lemma arrays_show_sample:
  "show_sample i s = (r, s') \<Longrightarrow> X_digits s' = X_digits s \<and> y_digits s' = y_digits s"
  by (auto simp: show_sample_def plot_def Let_def split: option.splits sum.splits)

lemma arrays_show_prediction:
  "show_prediction i s = (r, s') \<Longrightarrow> X_digits s' = X_digits s \<and> y_digits s' = y_digits s"
  by (auto simp: show_prediction_def plot_def Let_def split: option.splits sum.splits)

lemma arrays_tabulate_run:
  "tabulate_run env x s = (r, s') \<Longrightarrow> X_digits s' = X_digits s \<and> y_digits s' = y_digits s"
  by (auto simp: tabulate_run_def log_call_def Let_def split: option.splits sum.splits)

lemma arrays_for_each:
  assumes "\<And>x t q t'. body x t = (q, t') \<Longrightarrow> X_digits t' = X_digits t \<and> y_digits t' = y_digits t"
    and "for_each xs body s = (r, s')"
  shows "X_digits s' = X_digits s \<and> y_digits s' = y_digits s"
proof (rule for_each_inv [where I = "\<lambda>t. X_digits t = X_digits s \<and> y_digits t = y_digits s",
        OF _ _ assms(2)])
  fix x t q t'
  assume "X_digits t = X_digits s \<and> y_digits t = y_digits s" and "body x t = (q, t')"
  with assms(1) [of x t q t'] show "X_digits t' = X_digits s \<and> y_digits t' = y_digits s"
    by simp
qed simp

lemma arrays_show_samples:
  assumes "cell_show_samples env s = (r, s')"
  shows "X_digits s' = X_digits s \<and> y_digits s' = y_digits s"
proof (cases "X_digits s")
  case None
  with assms show ?thesis by (auto simp: cell_show_samples_def plot_def Let_def)
next
  case (Some X)
  define s2 where "s2 = (plot (Figure 16 6) (s\<lparr>count := Some 0, sample_size := Some 30\<rparr>))
                          \<lparr>rng := rng s + 1\<rparr>"
  have a2: "X_digits s2 = X_digits s \<and> y_digits s2 = y_digits s" by (simp add: s2_def plot_def)
  obtain r3 s3 where loop:
    "for_each (take 30 (permutation env (rng s) (length X))) show_sample s2 = (r3, s3)"
    by (cases "for_each (take 30 (permutation env (rng s) (length X))) show_sample s2")
  have a3: "X_digits s3 = X_digits s2 \<and> y_digits s3 = y_digits s2"
    by (rule arrays_for_each [OF _ loop]) (erule arrays_show_sample)
  have "s' = s3 \<or> s' = plot Show s3"
    using assms Some loop
    by (auto simp: cell_show_samples_def Let_def s2_def plot_def split: sum.splits)
  with a2 a3 show ?thesis by (auto simp: plot_def)
qed

lemma arrays_config:
  "cell_config s = (r, s') \<Longrightarrow> X_digits s' = X_digits s \<and> y_digits s' = y_digits s"
  by (auto simp: cell_config_def log_call_def split: option.splits)

lemma arrays_submit:
  "cell_submit env s = (r, s') \<Longrightarrow> X_digits s' = X_digits s \<and> y_digits s' = y_digits s"
  by (auto simp: cell_submit_def log_call_def Let_def split: option.splits sum.splits)

lemma arrays_widget:
  "cell_widget env s = (r, s') \<Longrightarrow> X_digits s' = X_digits s \<and> y_digits s' = y_digits s"
  by (auto simp: cell_widget_def log_call_def Let_def split: option.splits sum.splits)

lemma arrays_metrics:
  assumes "cell_metrics env s = (r, s')"
  shows "X_digits s' = X_digits s \<and> y_digits s' = y_digits s"
proof (cases "local_run s")
  case None
  with assms show ?thesis by (simp add: cell_metrics_def)
next
  case (Some r0)
  show ?thesis
  proof (cases "get_children env r0")
    case (Inl x)
    with assms Some show ?thesis by (auto simp: cell_metrics_def log_call_def Let_def)
  next
    case (Inr cs)
    define s2 where
      "s2 = (log_call (EvGetChildren r0) s)\<lparr>children := Some cs, metricslist := Some []\<rparr>"
    have a2: "X_digits s2 = X_digits s \<and> y_digits s2 = y_digits s"
      by (simp add: s2_def log_call_def)
    obtain r3 s3 where loop: "for_each cs (tabulate_run env) s2 = (r3, s3)"
      by (cases "for_each cs (tabulate_run env) s2")
    have a3: "X_digits s3 = X_digits s2 \<and> y_digits s3 = y_digits s2"
      by (rule arrays_for_each [OF _ loop]) (erule arrays_tabulate_run)
    have "s' = s3 \<or> (\<exists>ml. s' = s3\<lparr>rundata := Some ml\<rparr>)"
      using assms Some Inr loop
      by (auto simp: cell_metrics_def Let_def s2_def split: sum.splits option.splits)
    with a2 a3 show ?thesis by auto
  qed
qed

lemma arrays_register:
  "cell_register env s = (r, s') \<Longrightarrow> X_digits s' = X_digits s \<and> y_digits s' = y_digits s"
  by (auto simp: cell_register_def log_call_def Let_def split: option.splits sum.splits prod.splits)

lemma arrays_test:
  assumes "cell_test env s = (r, s')"
  shows "X_digits s' = X_digits s \<and> y_digits s' = y_digits s"
proof (cases "X_digits s")
  case None
  with assms show ?thesis by (auto simp: cell_test_def Let_def)
next
  case (Some X)
  define idx where "idx = take 30 (permutation env (rng s) (length X))"
  define s2 where "s2 = s\<lparr>var_n := Some 30, rng := rng s + 1, sample_indices := Some idx\<rparr>"
  show ?thesis
  proof (cases "take_rows X idx")
    case (Inl e)
    with assms Some have "s' = s2" by (simp add: cell_test_def Let_def s2_def idx_def)
    then show ?thesis by (simp add: s2_def)
  next
    case (Inr ts)
    define s3 where "s3 = s2\<lparr>test_samples := Some ts\<rparr>"
    show ?thesis
    proof (cases "fitted_model s")
      case None
      with assms Some Inr have "s' = s3"
        by (simp add: cell_test_def Let_def s2_def s3_def idx_def)
      then show ?thesis by (simp add: s2_def s3_def)
    next
      case f: (Some f)
      define s4 where "s4 = log_call (EvPredict f ts) s3"
      show ?thesis
      proof (cases "predict env f ts")
        case (Inl x)
        with assms Some Inr f have "s' = s4"
          by (simp add: cell_test_def Let_def s2_def s3_def s4_def idx_def)
        then show ?thesis by (simp add: s2_def s3_def s4_def log_call_def)
      next
        case res: (Inr res)
        define s5 where "s5 = plot (Figure 20 1) (s4\<lparr>result := Some res, var_i := Some 0\<rparr>)"
        have a5: "X_digits s5 = X_digits s \<and> y_digits s5 = y_digits s"
          by (simp add: s2_def s3_def s4_def s5_def log_call_def plot_def)
        obtain r6 s6 where loop: "for_each idx show_prediction s5 = (r6, s6)"
          by (cases "for_each idx show_prediction s5")
        have a6: "X_digits s6 = X_digits s5 \<and> y_digits s6 = y_digits s5"
          by (rule arrays_for_each [OF _ loop]) (erule arrays_show_prediction)
        have "s' = s6 \<or> s' = plot Show s6"
          using assms Some Inr f res loop
          by (auto simp: cell_test_def Let_def s2_def s3_def s4_def s5_def idx_def
                   split: sum.splits)
        with a5 a6 show ?thesis by (auto simp: plot_def)
      qed
    qed
  qed
qed

lemma arrays_later_cells:
  assumes "c \<in> set (drop 3 (notebook env))" and "c s = (r, s')"
  shows "X_digits s' = X_digits s \<and> y_digits s' = y_digits s"
proof -
  from assms(1) have "c = cell_show_samples env \<or> c = cell_config \<or> c = cell_submit env \<or>
      c = cell_widget env \<or> c = cell_metrics env \<or> c = cell_register env \<or> c = cell_test env"
    by (simp add: notebook_def)
  with assms(2) show ?thesis
    using arrays_show_samples arrays_config arrays_submit arrays_widget arrays_metrics
      arrays_register arrays_test by metis
qed

lemma first_three_cells:
  assumes "from_config env = Inr w"
  shows "\<exists>s3. run_cells (take 3 (notebook env)) init_state = (Inr (), s3) \<and>
           X_digits s3 = Some (drop 100 (data (load_digits env))) \<and>
           y_digits s3 = Some (drop 100 (target (load_digits env)))"
  using assms
  by (simp add: notebook_def run_cells_def cell_imports_def cell_workspace_def cell_load_result
        Let_def)

lemma arrays_at_stage:
  assumes "from_config env = Inr w" and "3 \<le> k"
    and "run_cells (take k (notebook env)) init_state = (r, s)"
  shows "X_digits s = Some (drop 100 (data (load_digits env))) \<and>
         y_digits s = Some (drop 100 (target (load_digits env)))"
proof -
  from first_three_cells [OF assms(1)] obtain s3
    where s3: "run_cells (take 3 (notebook env)) init_state = (Inr (), s3)"
      and X3: "X_digits s3 = Some (drop 100 (data (load_digits env)))"
      and y3: "y_digits s3 = Some (drop 100 (target (load_digits env)))"
    by blast
  define rest where "rest = drop 3 (take k (notebook env))"
  have split: "take k (notebook env) = take 3 (notebook env) @ rest"
    using assms(2) by (simp add: rest_def drop_take take_add [symmetric] min_def)
  have run: "run_cells rest s3 = (r, s)"
    using assms(3) s3 by (simp add: split run_cells_append)
  have sub: "set rest \<subseteq> set (drop 3 (notebook env))"
    by (simp add: rest_def drop_take set_take_subset)
  have "X_digits s = X_digits s3 \<and> y_digits s = y_digits s3"
  proof (rule run_cells_inv [where I = "\<lambda>t. X_digits t = X_digits s3 \<and> y_digits t = y_digits s3",
           OF _ _ run])
    fix c t q t'
    assume "c \<in> set rest" and i: "X_digits t = X_digits s3 \<and> y_digits t = y_digits s3"
      and c: "c t = (q, t')"
    with sub have "c \<in> set (drop 3 (notebook env))" by auto
    from arrays_later_cells [OF this c] i
    show "X_digits t' = X_digits s3 \<and> y_digits t' = y_digits s3" by simp
  qed simp
  with X3 y3 show ?thesis by simp
qed

text \<open>
  C5. Let the dataset have as many labels as rows, and let the workspace load succeed, so
  that the load cell runs. Then in the state after the first \<open>k\<close> cells, for every \<open>k\<close> from
  the load cell on (whether the run is still going or has ended with an exception),
  \<open>X_digits\<close> and \<open>y_digits\<close> are the arrays the load cell bound, and they have the same number
  of entries; and each cell after the load cell, run from any state, leaves both as they are.
\<close>

theorem sample_counts_match_at_every_stage:
  assumes "length (data (load_digits env)) = length (target (load_digits env))"
    and "from_config env = Inr w" and "3 \<le> k"
    and "run_cells (take k (notebook env)) init_state = (r, s)"
  shows "(\<exists>X y. X_digits s = Some X \<and> y_digits s = Some y \<and> length X = length y \<and>
            X = drop 100 (data (load_digits env)) \<and> y = drop 100 (target (load_digits env))) \<and>
         (\<forall>c \<in> set (drop 3 (notebook env)). \<forall>t.
            X_digits (snd (c t)) = X_digits t \<and> y_digits (snd (c t)) = y_digits t)"
proof
  from first_three_cells [OF assms(2)] obtain s3
    where s3: "run_cells (take 3 (notebook env)) init_state = (Inr (), s3)"
      and X3: "X_digits s3 = Some (drop 100 (data (load_digits env)))"
      and y3: "y_digits s3 = Some (drop 100 (target (load_digits env)))"
    by blast
  define rest where "rest = drop 3 (take k (notebook env))"
  have split: "take k (notebook env) = take 3 (notebook env) @ rest"
    using assms(3) by (simp add: rest_def drop_take take_add [symmetric] min_def)
  have run: "run_cells rest s3 = (r, s)"
    using assms(4) s3 by (simp add: split run_cells_append)
  have sub: "set rest \<subseteq> set (drop 3 (notebook env))"
    by (simp add: rest_def drop_take set_take_subset)
  have "X_digits s = X_digits s3 \<and> y_digits s = y_digits s3"
  proof (rule run_cells_inv [where I = "\<lambda>t. X_digits t = X_digits s3 \<and> y_digits t = y_digits s3",
           OF _ _ run])
    fix c t q t'
    assume "c \<in> set rest" and i: "X_digits t = X_digits s3 \<and> y_digits t = y_digits s3"
      and c: "c t = (q, t')"
    with sub have "c \<in> set (drop 3 (notebook env))" by auto
    from arrays_later_cells [OF this c] i
    show "X_digits t' = X_digits s3 \<and> y_digits t' = y_digits s3" by simp
  qed simp
  with X3 y3 assms(1)
  show "\<exists>X y. X_digits s = Some X \<and> y_digits s = Some y \<and> length X = length y \<and>
            X = drop 100 (data (load_digits env)) \<and> y = drop 100 (target (load_digits env))"
    by simp
next
  show "\<forall>c \<in> set (drop 3 (notebook env)). \<forall>t.
            X_digits (snd (c t)) = X_digits t \<and> y_digits (snd (c t)) = y_digits t"
    using arrays_later_cells by (metis prod.collapse)
qed

theorem sample_counts_match_at_every_stage_witness:
  "length (data (load_digits tiny_sdk)) = length (target (load_digits tiny_sdk)) \<and>
   (3::nat) \<le> 10 \<and>
   (\<exists>X y. X_digits (snd (run_cells (take 10 (notebook tiny_sdk)) init_state)) = Some X \<and>
          y_digits (snd (run_cells (take 10 (notebook tiny_sdk)) init_state)) = Some y \<and>
          length X = length y \<and>
          X = drop 100 (data (load_digits tiny_sdk)) \<and>
          y = drop 100 (target (load_digits tiny_sdk))) \<and>
   cell_config \<in> set (drop 3 (notebook tiny_sdk)) \<and>
   X_digits (snd (cell_config tiny_loaded)) = X_digits tiny_loaded \<and>
   y_digits (snd (cell_config tiny_loaded)) = y_digits tiny_loaded"
proof -
  have h1: "length (data (load_digits tiny_sdk)) = length (target (load_digits tiny_sdk))"
    by (simp add: tiny_sdk_def tiny_digits_def)
  have h2: "from_config tiny_sdk = Inr \<lparr> subscription_id = ''sub'', ws_name = ''w'',
                                         resource_group = ''rg'', location = ''loc'' \<rparr>"
    by (simp add: tiny_sdk_def)
  have h3: "(3::nat) \<le> 10" by simp
  have h4: "run_cells (take 10 (notebook tiny_sdk)) init_state =
              (fst (run_cells (take 10 (notebook tiny_sdk)) init_state),
               snd (run_cells (take 10 (notebook tiny_sdk)) init_state))"
    by simp
  have m: "cell_config \<in> set (drop 3 (notebook tiny_sdk))"
    by (simp add: notebook_def)
  from sample_counts_match_at_every_stage [OF h1 h2 h3 h4] h1 h3 m show ?thesis by blast
qed

subsection \<open>What is submitted and what is predicted\<close>

lemma bound_ok_final: "bound_ok env (snd (run_notebook env))"
  using bound_ok_run [of "notebook env" env "fst (run_notebook env)" "snd (run_notebook env)"]
  by (simp add: run_notebook_def)

lemma tiny_trace:
  "trace (snd (run_notebook tiny_sdk)) =
     [EvFromConfig, EvLoadDigits,
      EvAutoMLConfig (automl_kwargs (training_X tiny_sdk) (training_y tiny_sdk) ''./automl-classifier''),
      EvExperiment \<lparr> subscription_id = ''sub'', ws_name = ''w'',
                     resource_group = ''rg'', location = ''loc'' \<rparr> ''automl-classifier'',
      EvSubmit (Experiment \<lparr> subscription_id = ''sub'', ws_name = ''w'',
                     resource_group = ''rg'', location = ''loc'' \<rparr> ''automl-classifier'')
               (submitted_config tiny_sdk) True,
      EvRunDetails 0, EvGetChildren 0, EvGetProperties 1, EvGetMetrics 1,
      EvGetProperties 2, EvGetMetrics 2, EvGetOutput 0,
      EvRegisterModel 0 ''Automated Machine Learning Model'' PyNone,
      EvPredict () [replicate 64 1, replicate 64 2, replicate 64 3]]"
  by code_simp

lemma tiny_result: "fst (run_notebook tiny_sdk) = Inr ()"
  by code_simp

text \<open>
  C2, as the code has it. Whatever the SDK answers, the configuration that
  \<^verbatim>\<open>experiment.submit\<close> receives is the object built by \<^verbatim>\<open>AutoMLConfig\<close> from eleven keyword
  arguments: the eight settings with the literal values of the call site, and in addition
  \<^verbatim>\<open>X\<close>, \<^verbatim>\<open>y\<close> and \<^verbatim>\<open>path\<close>, bound to \<open>X_digits\<close>, \<open>y_digits\<close> and \<open>project_folder\<close> as the earlier
  cells left them. No value is changed on the way.
\<close>

theorem config_forwarded_with_arrays_and_path:
  "\<forall>ex cfg so. EvSubmit ex cfg so \<in> set (trace (snd (run_notebook env))) \<longrightarrow>
     so \<and>
     cfg = AutoMLConfig
       [(''task'', AStr ''classification''),
        (''primary_metric'', AStr ''AUC_weighted''),
        (''max_time_sec'', AInt 12000),
        (''iterations'', AInt 20),
        (''n_cross_validations'', AInt 3),
        (''preprocess'', ABool False),
        (''exit_score'', AFloat 0.9985),
        (''blacklist_algos'', AStrList [''kNN'', ''LinearSVM'']),
        (''X'', AMatrix (drop 100 (data (load_digits env)))),
        (''y'', AVector (drop 100 (target (load_digits env)))),
        (''path'', AStr ''./automl-classifier'')]"
proof (intro allI impI)
  fix ex cfg so
  assume "EvSubmit ex cfg so \<in> set (trace (snd (run_notebook env)))"
  with bound_ok_final [of env] have "event_ok env (EvSubmit ex cfg so)"
    by (auto simp: bound_ok_def list_all_iff)
  then show "so \<and> cfg = AutoMLConfig
       [(''task'', AStr ''classification''),
        (''primary_metric'', AStr ''AUC_weighted''),
        (''max_time_sec'', AInt 12000),
        (''iterations'', AInt 20),
        (''n_cross_validations'', AInt 3),
        (''preprocess'', ABool False),
        (''exit_score'', AFloat 0.9985),
        (''blacklist_algos'', AStrList [''kNN'', ''LinearSVM'']),
        (''X'', AMatrix (drop 100 (data (load_digits env)))),
        (''y'', AVector (drop 100 (target (load_digits env)))),
        (''path'', AStr ''./automl-classifier'')]"
    by (simp add: submitted_config_def automl_kwargs_def training_X_def training_y_def)
qed

theorem config_forwarded_with_arrays_and_path_witness:
  "EvSubmit (Experiment \<lparr> subscription_id = ''sub'', ws_name = ''w'',
                     resource_group = ''rg'', location = ''loc'' \<rparr> ''automl-classifier'')
            (submitted_config tiny_sdk) True \<in> set (trace (snd (run_notebook tiny_sdk))) \<and>
   submitted_config tiny_sdk = AutoMLConfig
       [(''task'', AStr ''classification''),
        (''primary_metric'', AStr ''AUC_weighted''),
        (''max_time_sec'', AInt 12000),
        (''iterations'', AInt 20),
        (''n_cross_validations'', AInt 3),
        (''preprocess'', ABool False),
        (''exit_score'', AFloat 0.9985),
        (''blacklist_algos'', AStrList [''kNN'', ''LinearSVM'']),
        (''X'', AMatrix (drop 100 (data (load_digits tiny_sdk)))),
        (''y'', AVector (drop 100 (target (load_digits tiny_sdk)))),
        (''path'', AStr ''./automl-classifier'')]"
proof -
  have h: "EvSubmit (Experiment \<lparr> subscription_id = ''sub'', ws_name = ''w'',
                     resource_group = ''rg'', location = ''loc'' \<rparr> ''automl-classifier'')
            (submitted_config tiny_sdk) True \<in> set (trace (snd (run_notebook tiny_sdk)))"
    by (simp add: tiny_trace)
  from config_forwarded_with_arrays_and_path [rule_format, OF h] h show ?thesis by simp
qed

text \<open>
  C2 as stated fails: the call passes eleven keyword arguments, not exactly the eight
  settings; \<^verbatim>\<open>path\<close>, for one, is among them.
\<close>

theorem exactly_eight_fields_counterexample:
  "map fst (config_kwargs (the (Automl_config (snd (run_notebook tiny_sdk))))) \<noteq>
     [''task'', ''primary_metric'', ''max_time_sec'', ''iterations'', ''n_cross_validations'',
      ''preprocess'', ''exit_score'', ''blacklist_algos''] \<and>
   length (config_kwargs (the (Automl_config (snd (run_notebook tiny_sdk))))) = 11 \<and>
   map_of (config_kwargs (the (Automl_config (snd (run_notebook tiny_sdk))))) ''path''
     = Some (AStr ''./automl-classifier'')"
  by code_simp

text \<open>
  C8. Whatever the SDK and the random permutation answer, every sample that a run of the
  notebook gives to \<^verbatim>\<open>fitted_model.predict\<close> is a row of the training array, that is a row of
  \<^verbatim>\<open>digits.data\<close> at a position from 100 on. The rows at positions 0 to 99, held out by the
  load cell, are never given to the model.
\<close>

theorem predicted_samples_come_from_training_rows:
  "\<forall>f rows. EvPredict f rows \<in> set (trace (snd (run_notebook env))) \<longrightarrow>
     (\<forall>row \<in> set rows. row \<in> set (drop 100 (data (load_digits env))) \<and>
        (\<exists>k. 100 + k < length (data (load_digits env)) \<and>
             row = data (load_digits env) ! (100 + k)))"
proof (intro allI impI ballI)
  fix f rows row
  assume ev: "EvPredict f rows \<in> set (trace (snd (run_notebook env)))" and row: "row \<in> set rows"
  from ev bound_ok_final [of env] have "event_ok env (EvPredict f rows)"
    by (auto simp: bound_ok_def list_all_iff)
  with row have mem: "row \<in> set (drop 100 (data (load_digits env)))"
    by (auto simp: list_all_iff training_X_def)
  then obtain k where "k < length (drop 100 (data (load_digits env)))"
      and "row = drop 100 (data (load_digits env)) ! k"
    by (auto simp: in_set_conv_nth)
  then have "100 + k < length (data (load_digits env)) \<and> row = data (load_digits env) ! (100 + k)"
    by auto
  with mem show "row \<in> set (drop 100 (data (load_digits env))) \<and>
        (\<exists>k. 100 + k < length (data (load_digits env)) \<and>
             row = data (load_digits env) ! (100 + k))"
    by blast
qed

theorem predicted_samples_come_from_training_rows_witness:
  "EvPredict () [replicate 64 1, replicate 64 2, replicate 64 3]
      \<in> set (trace (snd (run_notebook tiny_sdk))) \<and>
   replicate 64 2 \<in> set [replicate 64 1, replicate 64 2, replicate 64 (3::real)] \<and>
   replicate 64 2 \<in> set (drop 100 (data (load_digits tiny_sdk))) \<and>
   (\<exists>k. 100 + k < length (data (load_digits tiny_sdk)) \<and>
        replicate 64 2 = data (load_digits tiny_sdk) ! (100 + k))"
proof -
  have h: "EvPredict () [replicate 64 1, replicate 64 2, replicate 64 3]
      \<in> set (trace (snd (run_notebook tiny_sdk)))"
    by (simp add: tiny_trace)
  have m: "replicate 64 2 \<in> set [replicate 64 1, replicate 64 2, replicate 64 (3::real)]"
    by simp
  from predicted_samples_come_from_training_rows [rule_format, OF h m] h m
  show ?thesis by blast
qed

subsection \<open>The display loops\<close>

lemma show_sample_in_bounds:
  assumes "X_digits s = Some X" and "y_digits s = Some y" and "i < length X" and "i < length y"
    and "show_sample i s = (r, s')"
  shows "r \<noteq> Inl IndexError \<and> X_digits s' = Some X \<and> y_digits s' = Some y"
  using assms
  by (auto simp: show_sample_def at_index_def reshape_8_8_def plot_def Let_def
           split: option.splits if_splits)

lemma show_samples_loop_in_bounds:
  assumes "X_digits s = Some X" and "y_digits s = Some y"
    and "\<forall>i \<in> set idx. i < length X \<and> i < length y"
    and "for_each idx show_sample s = (r, s')"
  shows "r \<noteq> Inl IndexError"
proof -
  have "r \<noteq> Inl IndexError \<and> (r = Inr () \<longrightarrow> X_digits s' = Some X \<and> y_digits s' = Some y)"
  proof (rule for_each_post [where Q = "\<lambda>q t. q \<noteq> Inl IndexError \<and>
            (q = Inr () \<longrightarrow> X_digits t = Some X \<and> y_digits t = Some y)", OF _ _ assms(4)])
    fix x t q t'
    assume x: "x \<in> set idx"
      and "Inr () \<noteq> Inl IndexError \<and> (Inr () = Inr () \<longrightarrow> X_digits t = Some X \<and> y_digits t = Some y)"
      and b: "show_sample x t = (q, t')"
    then have "X_digits t = Some X" "y_digits t = Some y" by simp_all
    from show_sample_in_bounds [OF this _ _ b] x assms(3)
    show "q \<noteq> Inl IndexError \<and> (q = Inr () \<longrightarrow> X_digits t' = Some X \<and> y_digits t' = Some y)"
      by simp
  qed (simp add: assms)
  then show ?thesis by simp
qed

lemma cell_show_samples_in_bounds:
  assumes "X_digits s = Some X" and "y_digits s = Some y" and "length X = length y"
    and "\<forall>k \<in> set (permutation env (rng s) (length X)). k < length X"
  shows "fst (cell_show_samples env s) \<noteq> Inl IndexError"
proof -
  define s2 where "s2 = (plot (Figure 16 6) (s\<lparr>count := Some 0, sample_size := Some 30\<rparr>))
                          \<lparr>rng := rng s + 1\<rparr>"
  define idx where "idx = take 30 (permutation env (rng s) (length X))"
  obtain r3 s3 where loop: "for_each idx show_sample s2 = (r3, s3)"
    by (cases "for_each idx show_sample s2")
  have "\<forall>i \<in> set idx. i < length X \<and> i < length y"
    using assms(3,4) by (auto simp: idx_def dest: in_set_takeD)
  from show_samples_loop_in_bounds [OF _ _ this loop] assms(1,2)
  have "r3 \<noteq> Inl IndexError" by (simp add: s2_def plot_def)
  moreover have "fst (cell_show_samples env s) = r3 \<or> fst (cell_show_samples env s) = Inr ()"
    using assms(1) loop
    by (auto simp: cell_show_samples_def Let_def s2_def idx_def plot_def split: sum.splits)
  ultimately show ?thesis by auto
qed

lemma show_prediction_in_bounds:
  assumes "var_n s = Some n" and "var_i s = Some i" and "y_digits s = Some y"
    and "result s = Some res" and "X_digits s = Some X"
    and "sx < length y" and "sx < length X" and "i < length res"
    and "show_prediction sx s = (r, s')"
  shows "r \<noteq> Inl IndexError \<and>
         (r = Inr () \<longrightarrow> var_n s' = Some n \<and> var_i s' = Some (i + 1) \<and> y_digits s' = Some y \<and>
            result s' = Some res \<and> X_digits s' = Some X)"
  using assms
  by (auto simp: show_prediction_def misclassified_def at_index_def reshape_8_8_def plot_def Let_def
           split: if_splits)

lemma show_predictions_loop_in_bounds:
  assumes "var_n s = Some n" and "var_i s = Some i" and "y_digits s = Some y"
    and "result s = Some res" and "X_digits s = Some X"
    and "\<forall>sx \<in> set idx. sx < length y \<and> sx < length X"
    and "i + length idx \<le> length res"
    and "for_each idx show_prediction s = (r, s')"
  shows "r \<noteq> Inl IndexError"
  using assms
proof (induction idx arbitrary: s i)
  case Nil
  then show ?case by auto
next
  case (Cons sx idx)
  obtain r1 s1 where b: "show_prediction sx s = (r1, s1)" by (cases "show_prediction sx s")
  have sx: "sx < length y" "sx < length X" "i < length res" using Cons.prems(6,7) by auto
  note step = show_prediction_in_bounds [OF Cons.prems(1-5) sx b]
  show ?case
  proof (cases r1)
    case (Inl e)
    with b Cons.prems(8) have "r = r1" by simp
    with step show ?thesis by simp
  next
    case (Inr u)
    with b Cons.prems(8) have run: "for_each idx show_prediction s1 = (r, s')" by simp
    from Inr step have s1: "var_n s1 = Some n" "var_i s1 = Some (i + 1)" "y_digits s1 = Some y"
      "result s1 = Some res" "X_digits s1 = Some X" by simp_all
    have rest: "\<forall>sx \<in> set idx. sx < length y \<and> sx < length X" using Cons.prems(6) by simp
    have len: "(i + 1) + length idx \<le> length res" using Cons.prems(7) by simp
    from Cons.IH [OF s1 rest len run] show ?thesis .
  qed
qed

lemma take_rows_total:
  assumes "\<forall>k \<in> set ks. k < length a"
  shows "\<exists>xs. take_rows a ks = Inr xs \<and> length xs = length ks"
proof (cases "take_rows a ks")
  case (Inl e)
  from take_rows_Inl [OF Inl] assms show ?thesis by (simp add: list_all_iff)
next
  case (Inr xs)
  from take_rows_Inr [OF Inr] Inr show ?thesis by simp
qed

lemma cell_test_in_bounds:
  assumes "X_digits s = Some X" and "y_digits s = Some y" and "length X = length y"
    and "\<forall>k \<in> set (permutation env (rng s) (length X)). k < length X"
    and "\<forall>f ts res. predict env f ts = Inr res \<longrightarrow> length res = length ts"
  shows "fst (cell_test env s) \<noteq> Inl IndexError"
proof -
  define idx where "idx = take 30 (permutation env (rng s) (length X))"
  have idx: "\<forall>k \<in> set idx. k < length X" using assms(4) by (auto simp: idx_def dest: in_set_takeD)
  from take_rows_total [OF idx] obtain ts
    where ts: "take_rows X idx = Inr ts" and len: "length ts = length idx" by blast
  define s3 where "s3 = s\<lparr>var_n := Some 30, rng := rng s + 1, sample_indices := Some idx,
                          test_samples := Some ts\<rparr>"
  show ?thesis
  proof (cases "fitted_model s")
    case None
    with assms(1) ts show ?thesis by (simp add: cell_test_def Let_def idx_def)
  next
    case (Some f)
    show ?thesis
    proof (cases "predict env f ts")
      case (Inl x)
      with assms(1) ts Some show ?thesis by (simp add: cell_test_def Let_def idx_def)
    next
      case (Inr res)
      with assms(5) len have lres: "length res = length idx" by simp
      define s5 where "s5 = plot (Figure 20 1)
                              ((log_call (EvPredict f ts) s3)\<lparr>result := Some res, var_i := Some 0\<rparr>)"
      obtain r6 s6 where loop: "for_each idx show_prediction s5 = (r6, s6)"
        by (cases "for_each idx show_prediction s5")
      have "r6 \<noteq> Inl IndexError"
      proof (rule show_predictions_loop_in_bounds [OF _ _ _ _ _ _ _ loop])
        show "var_n s5 = Some 30" by (simp add: s5_def s3_def plot_def log_call_def)
        show "var_i s5 = Some 0" by (simp add: s5_def s3_def plot_def log_call_def)
        show "y_digits s5 = Some y" using assms(2) by (simp add: s5_def s3_def plot_def log_call_def)
        show "result s5 = Some res" by (simp add: s5_def s3_def plot_def log_call_def)
        show "X_digits s5 = Some X" using assms(1) by (simp add: s5_def s3_def plot_def log_call_def)
        show "\<forall>sx \<in> set idx. sx < length y \<and> sx < length X" using idx assms(3) by simp
        show "0 + length idx \<le> length res" using lres by simp
      qed
      moreover have "fst (cell_test env s) = r6 \<or> fst (cell_test env s) = Inr ()"
        using assms(1) ts Some Inr loop
        by (auto simp: cell_test_def Let_def idx_def s3_def s5_def log_call_def plot_def
                 split: sum.splits)
      ultimately show ?thesis by auto
    qed
  qed
qed

text \<open>
  C10. Let \<open>X_digits\<close> and \<open>y_digits\<close> have the same number of entries, let the random
  permutation of \<open>range(n)\<close> return indices below \<open>n\<close>, and let the model return one label per
  sample. Then neither the sample display nor the prediction display ends with IndexError:
  every access \<open>X_digits[i]\<close>, \<open>y_digits[i]\<close>, \<open>X_digits[sample_indices]\<close>, \<open>X_digits[s]\<close>,
  \<open>y_digits[s]\<close> and \<open>result[i]\<close> is in bounds. (That there are at least 30 rows is not needed.)
\<close>

theorem display_loops_index_in_bounds:
  assumes "X_digits s = Some X" and "y_digits s = Some y" and "length X = length y"
    and "\<forall>k \<in> set (permutation env (rng s) (length X)). k < length X"
    and "\<forall>f ts res. predict env f ts = Inr res \<longrightarrow> length res = length ts"
  shows "fst (cell_show_samples env s) \<noteq> Inl IndexError \<and> fst (cell_test env s) \<noteq> Inl IndexError"
  using cell_show_samples_in_bounds [OF assms(1-4)] cell_test_in_bounds [OF assms] by simp

lemma wide_registered_vars:
  "X_digits wide_registered = Some (replicate 20 (replicate 64 1) @ replicate 20 (replicate 64 2))"
  "y_digits wide_registered = Some (replicate 20 1 @ replicate 20 2)"
proof -
  have cfg: "from_config wide_sdk = Inr \<lparr> subscription_id = ''sub'', ws_name = ''w'',
                                          resource_group = ''rg'', location = ''loc'' \<rparr>"
    by (simp add: wide_sdk_def tiny_sdk_def)
  have run: "run_cells (take 9 (notebook wide_sdk)) init_state =
               (fst (run_cells (take 9 (notebook wide_sdk)) init_state), wide_registered)"
    by (simp add: wide_registered_def)
  from arrays_at_stage [OF cfg _ run]
  show "X_digits wide_registered
          = Some (replicate 20 (replicate 64 1) @ replicate 20 (replicate 64 2))"
    and "y_digits wide_registered = Some (replicate 20 1 @ replicate 20 2)"
    by (simp_all add: wide_sdk_def wide_digits_def)
qed

lemma wide_permutation:
  "\<forall>k \<in> set (permutation wide_sdk seed n). k < n"
  by (auto simp: wide_sdk_def tiny_sdk_def)

lemma wide_predict:
  "\<forall>f ts res. predict wide_sdk f ts = Inr res \<longrightarrow> length res = length ts"
  by (auto simp: wide_sdk_def tiny_sdk_def)

lemma wide_samples_shown:
  "case cell_show_samples wide_sdk wide_registered of
     (r, s') \<Rightarrow> r = Inr () \<and> count s' = Some 30"
  by code_simp

lemma wide_predictions_shown:
  "case cell_test wide_sdk wide_registered of
     (r, s') \<Rightarrow> r = Inr () \<and> var_i s' = Some 30 \<and>
       map_option length (sample_indices s') = Some 30 \<and>
       map_option length (result s') = Some 30 \<and>
       fitted_model s' = Some ()"
  by code_simp

theorem display_loops_index_in_bounds_witness:
  "X_digits wide_registered
     = Some (replicate 20 (replicate 64 1) @ replicate 20 (replicate 64 2)) \<and>
   y_digits wide_registered = Some (replicate 20 1 @ replicate 20 2) \<and>
   length (replicate 20 (replicate 64 1) @ replicate 20 (replicate 64 (2::real)))
     = length (replicate 20 1 @ replicate 20 (2::int)) \<and>
   30 \<le> length (replicate 20 (replicate 64 1) @ replicate 20 (replicate 64 (2::real))) \<and>
   fst (cell_show_samples wide_sdk wide_registered) = Inr () \<and>
   count (snd (cell_show_samples wide_sdk wide_registered)) = Some 30 \<and>
   fst (cell_test wide_sdk wide_registered) = Inr () \<and>
   fitted_model (snd (cell_test wide_sdk wide_registered)) = Some () \<and>
   map_option length (sample_indices (snd (cell_test wide_sdk wide_registered))) = Some 30 \<and>
   map_option length (result (snd (cell_test wide_sdk wide_registered))) = Some 30 \<and>
   var_i (snd (cell_test wide_sdk wide_registered)) = Some 30 \<and>
   fst (cell_show_samples wide_sdk wide_registered) \<noteq> Inl IndexError \<and>
   fst (cell_test wide_sdk wide_registered) \<noteq> Inl IndexError"
proof -
  have h3: "length (replicate 20 (replicate 64 1) @ replicate 20 (replicate 64 (2::real)))
              = length (replicate 20 1 @ replicate 20 (2::int))"
    by simp
  have big: "30 \<le> length (replicate 20 (replicate 64 1) @ replicate 20 (replicate 64 (2::real)))"
    by simp
  have shown: "fst (cell_show_samples wide_sdk wide_registered) = Inr () \<and>
               count (snd (cell_show_samples wide_sdk wide_registered)) = Some 30"
    using wide_samples_shown by (cases "cell_show_samples wide_sdk wide_registered") simp
  have predicted: "fst (cell_test wide_sdk wide_registered) = Inr () \<and>
      fitted_model (snd (cell_test wide_sdk wide_registered)) = Some () \<and>
      map_option length (sample_indices (snd (cell_test wide_sdk wide_registered))) = Some 30 \<and>
      map_option length (result (snd (cell_test wide_sdk wide_registered))) = Some 30 \<and>
      var_i (snd (cell_test wide_sdk wide_registered)) = Some 30"
    using wide_predictions_shown by (cases "cell_test wide_sdk wide_registered") simp
  from display_loops_index_in_bounds
         [OF wide_registered_vars(1) wide_registered_vars(2) h3 wide_permutation wide_predict]
    wide_registered_vars h3 big shown predicted
  show ?thesis by simp
qed

lemma show_prediction_renders:
  assumes "y_digits s = Some y" and "result s = Some res" and "var_i s = Some i"
    and "show_prediction sx s = (Inr (), s')"
  shows "font_color s' = Some (if y ! sx \<noteq> res ! i then ''red'' else ''black'') \<and>
         clr_map s' = Some (if y ! sx \<noteq> res ! i then gray else Greys) \<and>
         (\<exists>n img. plots s' = plots s @
            [Subplot 1 n (i + 1), Axhline [], Axvline [],
             Text 2 (- 2) (res ! i) 18 (Some (if y ! sx \<noteq> res ! i then ''red'' else ''black'')),
             Imshow img (if y ! sx \<noteq> res ! i then gray else Greys)])"
  using assms
  by (auto simp: show_prediction_def misclassified_def at_index_def plot_def Let_def
           split: option.splits sum.splits if_splits)

lemma show_sample_renders:
  assumes "show_sample j t = (Inr (), t')"
  shows "\<exists>sz c l img. plots t' = plots t @
            [Subplot 1 sz c, Axhline [], Axvline [], Text 2 (- 2) l 18 None, Imshow img Greys]"
  using assms
  by (auto simp: show_sample_def plot_def Let_def split: option.splits sum.splits)

text \<open>
  C4, as the code has it. The sample display renders every sample with the default text
  colour and the colour map \<open>Greys\<close>, whatever the data. The prediction display branches on
  \<^verbatim>\<open>y_digits[s] != result[i]\<close>: a misclassified sample gets the text colour red and the
  colour map \<open>gray\<close>, any other sample black and \<open>Greys\<close>. So two runs that show the same sample
  with different predictions give it the same text colour and colour map whenever they
  agree on whether it is misclassified.
\<close>

theorem rendering_depends_on_misclassification_only:
  assumes "y_digits s1 = Some y" and "result s1 = Some res1" and "var_i s1 = Some i"
    and "show_prediction sx s1 = (Inr (), s1')"
    and "y_digits s2 = Some y" and "result s2 = Some res2" and "var_i s2 = Some i"
    and "show_prediction sx s2 = (Inr (), s2')"
    and "show_sample j t = (Inr (), t')"
  shows "font_color s1' = Some (if y ! sx \<noteq> res1 ! i then ''red'' else ''black'') \<and>
         clr_map s1' = Some (if y ! sx \<noteq> res1 ! i then gray else Greys) \<and>
         (\<exists>n img. plots s1' = plots s1 @
            [Subplot 1 n (i + 1), Axhline [], Axvline [],
             Text 2 (- 2) (res1 ! i) 18 (font_color s1'), Imshow img (the (clr_map s1'))]) \<and>
         ((y ! sx \<noteq> res1 ! i) = (y ! sx \<noteq> res2 ! i) \<longrightarrow>
            font_color s1' = font_color s2' \<and> clr_map s1' = clr_map s2') \<and>
         (\<exists>sz c l img. plots t' = plots t @
            [Subplot 1 sz c, Axhline [], Axvline [], Text 2 (- 2) l 18 None, Imshow img Greys])"
  using show_prediction_renders [OF assms(1-4)] show_prediction_renders [OF assms(5-8)]
    show_sample_renders [OF assms(9)]
  by auto

lemma display_state_vars:
  "y_digits (display_state res) = Some [1]" "result (display_state res) = Some res"
  "var_i (display_state res) = Some 0"
  by (simp_all add: display_state_def)

lemma display_state_prediction: "fst (show_prediction 0 (display_state [k])) = Inr ()"
  by (simp add: show_prediction_def display_state_def init_state_def misclassified_def
        at_index_def reshape_8_8_def plot_def Let_def)

lemma display_state_sample: "fst (show_sample 0 (display_state res)) = Inr ()"
  by (simp add: show_sample_def display_state_def init_state_def
        at_index_def reshape_8_8_def plot_def Let_def)

theorem rendering_depends_on_misclassification_only_witness:
  "font_color (snd (show_prediction 0 (display_state [2]))) = Some ''red'' \<and>
   clr_map (snd (show_prediction 0 (display_state [2]))) = Some gray \<and>
   (([1::int] ! 0 \<noteq> [2] ! 0) = ([1::int] ! 0 \<noteq> [3] ! 0)) \<and>
   font_color (snd (show_prediction 0 (display_state [2])))
     = font_color (snd (show_prediction 0 (display_state [3]))) \<and>
   clr_map (snd (show_prediction 0 (display_state [2])))
     = clr_map (snd (show_prediction 0 (display_state [3])))"
proof -
  have p2: "show_prediction 0 (display_state [2]) = (Inr (), snd (show_prediction 0 (display_state [2])))"
    using display_state_prediction [of 2] by (metis prod.collapse)
  have p3: "show_prediction 0 (display_state [3]) = (Inr (), snd (show_prediction 0 (display_state [3])))"
    using display_state_prediction [of 3] by (metis prod.collapse)
  have p0: "show_sample 0 (display_state [2]) = (Inr (), snd (show_sample 0 (display_state [2])))"
    using display_state_sample [of "[2]"] by (metis prod.collapse)
  from rendering_depends_on_misclassification_only
         [OF display_state_vars(1) display_state_vars(2) display_state_vars(3) p2
             display_state_vars(1) display_state_vars(2) display_state_vars(3) p3 p0]
  show ?thesis by auto
qed

text \<open>
  C4 as stated fails: two runs on the same data and the same samples, one with a model
  that predicts 1 throughout and one with a model that predicts every label right, end
  with different text colours and colour maps for the last sample shown.
\<close>

theorem rendering_independent_of_prediction_counterexample:
  "result (snd (run_notebook tiny_sdk)) = Some [1, 1, 1] \<and>
   result (snd (run_notebook exact_sdk)) = Some [1, 2, 3] \<and>
   font_color (snd (run_notebook tiny_sdk)) = Some ''red'' \<and>
   font_color (snd (run_notebook exact_sdk)) = Some ''black'' \<and>
   clr_map (snd (run_notebook tiny_sdk)) = Some gray \<and>
   clr_map (snd (run_notebook exact_sdk)) = Some Greys"
  by code_simp

subsection \<open>The results table\<close>

lemma update_fresh: "k \<notin> fst ` set al \<Longrightarrow> AList.update k v al = al @ [(k, v)]"
  by (induction al) auto

lemma fold_update_fresh:
  "distinct (map fst xs) \<Longrightarrow> fst ` set xs \<inter> fst ` set acc = {} \<Longrightarrow>
   fold (\<lambda>(k, v) a. AList.update k v a) xs acc = acc @ xs"
proof (induction xs arbitrary: acc)
  case Nil
  then show ?case by simp
next
  case (Cons x xs)
  obtain k v where x: "x = (k, v)" by (cases x)
  from Cons.prems have fresh: "k \<notin> fst ` set acc" by (auto simp: x)
  have step: "fold (\<lambda>(k, v) a. AList.update k v a) xs (acc @ [(k, v)]) = (acc @ [(k, v)]) @ xs"
  proof (rule Cons.IH)
    show "distinct (map fst xs)" using Cons.prems(1) by simp
    show "fst ` set xs \<inter> fst ` set (acc @ [(k, v)]) = {}"
      using Cons.prems by (auto simp: x)
  qed
  show ?case by (simp add: x update_fresh [OF fresh] step)
qed

lemma float_metrics_distinct:
  assumes "distinct (map fst m)"
  shows "float_metrics m = filter (\<lambda>(k, v). is_float v) m"
proof -
  have "distinct (map fst (filter (\<lambda>(k, v). is_float v) m))"
    using assms by (rule distinct_map_filter)
  from fold_update_fresh [OF this, of "[]"] show ?thesis by (simp add: float_metrics_def)
qed

lemma tabulate_run_ok:
  assumes "tabulate_run env r s = (Inr (), s')" and "metricslist s = Some ml"
  shows "\<exists>k m. iteration_of env r = Some k \<and> get_metrics env r = Inr m \<and>
           metricslist s' = Some (AList.update k (float_metrics m) ml)"
  using assms
  by (auto simp: tabulate_run_def iteration_of_def dict_get_def log_call_def Let_def
           split: sum.splits option.splits)

lemma tabulate_loop:
  assumes "for_each cs (tabulate_run env) s = (Inr (), s')" and "metricslist s = Some ml"
  shows "\<exists>ml'. metricslist s' = Some ml' \<and>
           fst ` set ml' = fst ` set ml \<union> {k. \<exists>r \<in> set cs. iteration_of env r = Some k} \<and>
           (\<forall>k. (\<forall>r \<in> set cs. iteration_of env r \<noteq> Some k) \<longrightarrow> map_of ml' k = map_of ml k)"
  using assms
proof (induction cs arbitrary: s ml)
  case Nil
  then show ?case by auto
next
  case (Cons r cs)
  obtain r1 s1 where b: "tabulate_run env r s = (r1, s1)" by (cases "tabulate_run env r s")
  with Cons.prems(1) have r1: "r1 = Inr ()" and run: "for_each cs (tabulate_run env) s1 = (Inr (), s')"
    by (auto split: sum.splits)
  from tabulate_run_ok [OF b [unfolded r1] Cons.prems(2)] obtain k m
    where k: "iteration_of env r = Some k" and m: "get_metrics env r = Inr m"
      and ml1: "metricslist s1 = Some (AList.update k (float_metrics m) ml)"
    by blast
  from Cons.IH [OF run ml1] obtain ml'
    where ml': "metricslist s' = Some ml'"
      and dom: "fst ` set ml' = fst ` set (AList.update k (float_metrics m) ml)
                 \<union> {k. \<exists>r \<in> set cs. iteration_of env r = Some k}"
      and keep: "\<forall>j. (\<forall>r \<in> set cs. iteration_of env r \<noteq> Some j) \<longrightarrow>
                   map_of ml' j = map_of (AList.update k (float_metrics m) ml) j"
    by blast
  have "fst ` set ml' = fst ` set ml \<union> {j. \<exists>r' \<in> set (r # cs). iteration_of env r' = Some j}"
    using dom k by (auto simp: dom_update)
  moreover have "\<forall>j. (\<forall>r' \<in> set (r # cs). iteration_of env r' \<noteq> Some j) \<longrightarrow>
                   map_of ml' j = map_of ml j"
    using keep k by (auto simp: update_conv')
  ultimately show ?case using ml' by blast
qed

lemma tabulate_loop_entry:
  assumes "for_each (pre @ r # post) (tabulate_run env) s = (Inr (), s')"
    and "metricslist s = Some ml"
    and "\<forall>r' \<in> set post. iteration_of env r' \<noteq> iteration_of env r"
  shows "\<exists>ml' k m. metricslist s' = Some ml' \<and> iteration_of env r = Some k \<and>
           get_metrics env r = Inr m \<and> map_of ml' k = Some (float_metrics m)"
proof -
  obtain r1 s1 where pre: "for_each pre (tabulate_run env) s = (r1, s1)"
    by (cases "for_each pre (tabulate_run env) s")
  with assms(1) have r1: "r1 = Inr ()"
    and rest: "for_each (r # post) (tabulate_run env) s1 = (Inr (), s')"
    by (auto simp: for_each_append split: sum.splits)
  from tabulate_loop [OF pre [unfolded r1] assms(2)] obtain ml1
    where ml1: "metricslist s1 = Some ml1" by blast
  obtain r2 s2 where b: "tabulate_run env r s1 = (r2, s2)" by (cases "tabulate_run env r s1")
  with rest have r2: "r2 = Inr ()" and post: "for_each post (tabulate_run env) s2 = (Inr (), s')"
    by (auto split: sum.splits)
  from tabulate_run_ok [OF b [unfolded r2] ml1] obtain k m
    where k: "iteration_of env r = Some k" and m: "get_metrics env r = Inr m"
      and ml2: "metricslist s2 = Some (AList.update k (float_metrics m) ml1)"
    by blast
  from tabulate_loop [OF post ml2] obtain ml'
    where ml': "metricslist s' = Some ml'"
      and keep: "\<forall>j. (\<forall>r' \<in> set post. iteration_of env r' \<noteq> Some j) \<longrightarrow>
                   map_of ml' j = map_of (AList.update k (float_metrics m) ml1) j"
    by blast
  from assms(3) k have "\<forall>r' \<in> set post. iteration_of env r' \<noteq> Some k" by simp
  with keep have "map_of ml' k = Some (float_metrics m)" by (simp add: update_conv')
  with ml' k m show ?thesis by blast
qed

lemma cell_metrics_ok:
  assumes "local_run s = Some r0" and "get_children env r0 = Inr cs"
    and "fst (cell_metrics env s) = Inr ()"
  shows "\<exists>s3. for_each cs (tabulate_run env)
                 ((log_call (EvGetChildren r0) s)\<lparr>children := Some cs, metricslist := Some []\<rparr>)
               = (Inr (), s3) \<and>
              metricslist (snd (cell_metrics env s)) = metricslist s3"
  using assms
  by (auto simp: cell_metrics_def Let_def split: prod.splits sum.splits option.splits)

text \<open>
  C3, as the code has it. Let the metrics cell complete. For every child run \<open>r\<close> returned by
  \<^verbatim>\<open>get_children\<close> whose iteration number is not carried by a later child run (so for every
  child run, when the iteration numbers are pairwise distinct), \<open>metricslist\<close> maps the integer
  value of the \<^verbatim>\<open>iteration\<close> property of \<open>r\<close> to the float-valued entries of the metrics of \<open>r\<close>,
  unchanged and in order, the other entries being dropped. The keys of \<open>metricslist\<close> are exactly
  the iteration numbers of the child runs.
\<close>

theorem results_table_reformats_child_runs:
  assumes "local_run s = Some r0" and "get_children env r0 = Inr (pre @ r # post)"
    and "fst (cell_metrics env s) = Inr ()"
    and "\<forall>r' \<in> set post. iteration_of env r' \<noteq> iteration_of env r"
  shows "\<exists>ml k m. metricslist (snd (cell_metrics env s)) = Some ml \<and>
           iteration_of env r = Some k \<and> get_metrics env r = Inr m \<and>
           map_of ml k = Some (float_metrics m) \<and>
           (distinct (map fst m) \<longrightarrow> float_metrics m = filter (\<lambda>(name, v). is_float v) m) \<and>
           fst ` set ml = {j. \<exists>r' \<in> set (pre @ r # post). iteration_of env r' = Some j}"
proof -
  from cell_metrics_ok [OF assms(1-3)] obtain s3
    where loop: "for_each (pre @ r # post) (tabulate_run env)
                   ((log_call (EvGetChildren r0) s)
                      \<lparr>children := Some (pre @ r # post), metricslist := Some []\<rparr>) = (Inr (), s3)"
      and fin: "metricslist (snd (cell_metrics env s)) = metricslist s3"
    by blast
  have start: "metricslist ((log_call (EvGetChildren r0) s)
                 \<lparr>children := Some (pre @ r # post), metricslist := Some []\<rparr>) = Some []"
    by simp
  from tabulate_loop_entry [OF loop start assms(4)] obtain ml k m
    where ml: "metricslist s3 = Some ml" and k: "iteration_of env r = Some k"
      and m: "get_metrics env r = Inr m" and v: "map_of ml k = Some (float_metrics m)"
    by blast
  from tabulate_loop [OF loop start] ml
  have dom: "fst ` set ml = {j. \<exists>r' \<in> set (pre @ r # post). iteration_of env r' = Some j}"
    by auto
  from ml k m v dom fin float_metrics_distinct show ?thesis by auto
qed

lemma submitted_state_run: "local_run submitted_state = Some 0"
  by (simp add: submitted_state_def)

lemma tiny_children: "get_children tiny_sdk 0 = Inr ([] @ 1 # [2])"
  by (simp add: tiny_sdk_def)

lemma tiny_metrics_cell: "fst (cell_metrics tiny_sdk submitted_state) = Inr ()"
  by code_simp

lemma tiny_iterations: "\<forall>r' \<in> set [2]. iteration_of tiny_sdk r' \<noteq> iteration_of tiny_sdk 1"
  by (simp add: iteration_of_def tiny_sdk_def)

theorem results_table_reformats_child_runs_witness:
  "local_run submitted_state = Some 0 \<and>
   get_children tiny_sdk 0 = Inr ([] @ 1 # [2]) \<and>
   fst (cell_metrics tiny_sdk submitted_state) = Inr () \<and>
   iteration_of tiny_sdk 2 \<noteq> iteration_of tiny_sdk 1 \<and>
   (\<exists>ml. metricslist (snd (cell_metrics tiny_sdk submitted_state)) = Some ml \<and>
         iteration_of tiny_sdk 1 = Some 0 \<and>
         get_metrics tiny_sdk 1 = Inr [(''AUC_weighted'', PyFloat 0.9), (''note'', PyStr ''x'')] \<and>
         map_of ml 0
           = Some (float_metrics [(''AUC_weighted'', PyFloat 0.9), (''note'', PyStr ''x'')]) \<and>
         distinct (map fst [(''AUC_weighted'', PyFloat 0.9), (''note'', PyStr ''x'')]) \<and>
         float_metrics [(''AUC_weighted'', PyFloat 0.9), (''note'', PyStr ''x'')]
           = filter (\<lambda>(name, v). is_float v)
               [(''AUC_weighted'', PyFloat 0.9), (''note'', PyStr ''x'')])"
proof -
  from results_table_reformats_child_runs
          [OF submitted_state_run tiny_children tiny_metrics_cell tiny_iterations]
  obtain ml k m
    where ml: "metricslist (snd (cell_metrics tiny_sdk submitted_state)) = Some ml"
      and k: "iteration_of tiny_sdk 1 = Some k"
      and m: "get_metrics tiny_sdk 1 = Inr m"
      and v: "map_of ml k = Some (float_metrics m)"
      and d: "distinct (map fst m) \<longrightarrow> float_metrics m = filter (\<lambda>(name, v). is_float v) m"
    by blast
  from k have k0: "k = 0" by (simp add: iteration_of_def tiny_sdk_def)
  from m have m0: "m = [(''AUC_weighted'', PyFloat 0.9), (''note'', PyStr ''x'')]"
    by (simp add: tiny_sdk_def)
  have dist: "distinct (map fst [(''AUC_weighted'', PyFloat 0.9), (''note'', PyStr ''x'')])"
    by simp
  have ne: "iteration_of tiny_sdk 2 \<noteq> iteration_of tiny_sdk 1"
    using tiny_iterations by simp
  from ml k m v d dist ne submitted_state_run tiny_children tiny_metrics_cell
  show ?thesis unfolding k0 m0 by blast
qed

text \<open>
  C3 as stated fails: when two child runs carry the same iteration number, the table is
  keyed by it once, and holds the metrics of the later run, not those of the earlier one.
\<close>

theorem later_run_overwrites_counterexample:
  "children (snd (run_notebook dup_sdk)) = Some [1, 2] \<and>
   iteration_of dup_sdk 1 = Some 0 \<and>
   get_metrics dup_sdk 1 = Inr [(''AUC_weighted'', PyFloat 0.5)] \<and>
   metricslist (snd (run_notebook dup_sdk)) = Some [(0, [(''AUC_weighted'', PyFloat 0.9)])] \<and>
   map_of [(0::int, [(''AUC_weighted'', PyFloat 0.9)])] 0
     \<noteq> Some (float_metrics [(''AUC_weighted'', PyFloat 0.5)])"
  by code_simp

subsection \<open>Exceptions\<close>

lemma agrees_Inr [simp]: "outcome_agrees env (Inr u) tr = all_returned env tr"
  by simp

lemma all_returned_simps [simp]:
  "all_returned env []"
  "all_returned env (ev # tr) \<longleftrightarrow> call_raises env ev = None \<and> all_returned env tr"
  "all_returned env (tr @ tr') \<longleftrightarrow> all_returned env tr \<and> all_returned env tr'"
  by (auto simp: all_returned_def)

lemma butlast_snoc2 [simp]: "butlast (tr @ [a, b]) = tr @ [a]"
  by (simp add: butlast_append)

lemma agrees_show_sample:
  "all_returned env (trace s) \<Longrightarrow> show_sample i s = (r, s') \<Longrightarrow> outcome_agrees env r (trace s')"
  by (auto simp: show_sample_def at_index_def reshape_8_8_def plot_def Let_def
           split: option.splits if_splits)

lemma agrees_show_prediction:
  "all_returned env (trace s) \<Longrightarrow> show_prediction i s = (r, s') \<Longrightarrow>
   outcome_agrees env r (trace s')"
  by (auto simp: show_prediction_def misclassified_def at_index_def reshape_8_8_def plot_def Let_def
           split: option.splits if_splits)

lemma agrees_tabulate_run:
  "all_returned env (trace s) \<Longrightarrow> tabulate_run env x s = (r, s') \<Longrightarrow>
   outcome_agrees env r (trace s')"
  by (auto simp: tabulate_run_def dict_get_def log_call_def raised_def Let_def
           split: option.splits sum.splits)

lemma agrees_for_each:
  assumes "\<And>x t q t'. all_returned env (trace t) \<Longrightarrow> body x t = (q, t') \<Longrightarrow>
             outcome_agrees env q (trace t')"
    and "all_returned env (trace s)" and "for_each xs body s = (r, s')"
  shows "outcome_agrees env r (trace s')"
proof (rule for_each_post [where Q = "\<lambda>q t. outcome_agrees env q (trace t)", OF _ _ assms(3)])
  fix x t q t'
  assume "outcome_agrees env (Inr ()) (trace t)" and "body x t = (q, t')"
  with assms(1) [of t x q t'] show "outcome_agrees env q (trace t')" by simp
qed (simp add: assms(2))

lemma agrees_imports:
  "all_returned env (trace s) \<Longrightarrow> cell_imports s = (r, s') \<Longrightarrow> outcome_agrees env r (trace s')"
  by (auto simp: cell_imports_def)

lemma agrees_workspace:
  "all_returned env (trace s) \<Longrightarrow> cell_workspace env s = (r, s') \<Longrightarrow>
   outcome_agrees env r (trace s')"
  by (auto simp: cell_workspace_def log_call_def raised_def Let_def split: sum.splits)

lemma agrees_load:
  "all_returned env (trace s) \<Longrightarrow> cell_load env s = (r, s') \<Longrightarrow> outcome_agrees env r (trace s')"
  by (auto simp: cell_load_def log_call_def Let_def)

lemma agrees_show_samples:
  assumes "all_returned env (trace s)" and "cell_show_samples env s = (r, s')"
  shows "outcome_agrees env r (trace s')"
proof (cases "X_digits s")
  case None
  with assms show ?thesis by (auto simp: cell_show_samples_def plot_def Let_def)
next
  case (Some X)
  define s2 where "s2 = (plot (Figure 16 6) (s\<lparr>count := Some 0, sample_size := Some 30\<rparr>))
                          \<lparr>rng := rng s + 1\<rparr>"
  have a2: "all_returned env (trace s2)" using assms(1) by (simp add: s2_def plot_def)
  obtain r3 s3 where loop:
    "for_each (take 30 (permutation env (rng s) (length X))) show_sample s2 = (r3, s3)"
    by (cases "for_each (take 30 (permutation env (rng s) (length X))) show_sample s2")
  have a3: "outcome_agrees env r3 (trace s3)"
    by (rule agrees_for_each [OF _ a2 loop]) (erule (1) agrees_show_sample)
  have "(r = r3 \<and> s' = s3) \<or> (r = Inr () \<and> r3 = Inr () \<and> s' = plot Show s3)"
    using assms(2) Some loop
    by (auto simp: cell_show_samples_def Let_def s2_def plot_def split: sum.splits)
  with a3 show ?thesis by (auto simp: plot_def)
qed

lemma agrees_config:
  "all_returned env (trace s) \<Longrightarrow> cell_config s = (r, s') \<Longrightarrow> outcome_agrees env r (trace s')"
  by (auto simp: cell_config_def log_call_def split: option.splits)

lemma agrees_submit:
  "all_returned env (trace s) \<Longrightarrow> cell_submit env s = (r, s') \<Longrightarrow>
   outcome_agrees env r (trace s')"
  by (auto simp: cell_submit_def log_call_def raised_def Let_def split: option.splits sum.splits)

lemma agrees_widget:
  "all_returned env (trace s) \<Longrightarrow> cell_widget env s = (r, s') \<Longrightarrow>
   outcome_agrees env r (trace s')"
  by (auto simp: cell_widget_def log_call_def raised_def Let_def split: option.splits sum.splits)

lemma agrees_metrics:
  assumes "all_returned env (trace s)" and "cell_metrics env s = (r, s')"
  shows "outcome_agrees env r (trace s')"
proof (cases "local_run s")
  case None
  with assms show ?thesis by (auto simp: cell_metrics_def)
next
  case (Some r0)
  show ?thesis
  proof (cases "get_children env r0")
    case (Inl x)
    with assms Some show ?thesis
      by (auto simp: cell_metrics_def log_call_def raised_def Let_def)
  next
    case (Inr cs)
    define s2 where
      "s2 = (log_call (EvGetChildren r0) s)\<lparr>children := Some cs, metricslist := Some []\<rparr>"
    have a2: "all_returned env (trace s2)"
      using assms(1) Inr by (simp add: s2_def log_call_def raised_def)
    obtain r3 s3 where loop: "for_each cs (tabulate_run env) s2 = (r3, s3)"
      by (cases "for_each cs (tabulate_run env) s2")
    have a3: "outcome_agrees env r3 (trace s3)"
      by (rule agrees_for_each [OF _ a2 loop]) (erule (1) agrees_tabulate_run)
    have "(r = r3 \<and> s' = s3) \<or> (r3 = Inr () \<and> trace s' = trace s3 \<and> (\<forall>x. r \<noteq> Inl (SdkError x)))"
      using assms(2) Some Inr loop
      by (auto simp: cell_metrics_def Let_def s2_def split: sum.splits option.splits)
    with a3 show ?thesis by (cases r) (auto, case_tac a, auto)
  qed
qed

lemma agrees_register:
  "all_returned env (trace s) \<Longrightarrow> cell_register env s = (r, s') \<Longrightarrow>
   outcome_agrees env r (trace s')"
  by (auto simp: cell_register_def log_call_def raised_def Let_def
           split: option.splits sum.splits prod.splits)

lemma agrees_test:
  assumes "all_returned env (trace s)" and "cell_test env s = (r, s')"
  shows "outcome_agrees env r (trace s')"
proof (cases "X_digits s")
  case None
  with assms show ?thesis by (auto simp: cell_test_def Let_def)
next
  case (Some X)
  define idx where "idx = take 30 (permutation env (rng s) (length X))"
  define s2 where "s2 = s\<lparr>var_n := Some 30, rng := rng s + 1, sample_indices := Some idx\<rparr>"
  show ?thesis
  proof (cases "take_rows X idx")
    case (Inl e)
    from take_rows_Inl [OF Inl] have "e = IndexError" by simp
    with assms Some Inl show ?thesis by (auto simp: cell_test_def Let_def idx_def)
  next
    case (Inr ts)
    define s3 where "s3 = s2\<lparr>test_samples := Some ts\<rparr>"
    show ?thesis
    proof (cases "fitted_model s")
      case None
      with assms Some Inr show ?thesis by (auto simp: cell_test_def Let_def idx_def)
    next
      case f: (Some f)
      define s4 where "s4 = log_call (EvPredict f ts) s3"
      show ?thesis
      proof (cases "predict env f ts")
        case (Inl x)
        with assms Some Inr f show ?thesis
          by (auto simp: cell_test_def Let_def idx_def log_call_def raised_def)
      next
        case res: (Inr res)
        define s5 where "s5 = plot (Figure 20 1) (s4\<lparr>result := Some res, var_i := Some 0\<rparr>)"
        have a5: "all_returned env (trace s5)"
          using assms(1) res
          by (simp add: s2_def s3_def s4_def s5_def log_call_def plot_def raised_def)
        obtain r6 s6 where loop: "for_each idx show_prediction s5 = (r6, s6)"
          by (cases "for_each idx show_prediction s5")
        have a6: "outcome_agrees env r6 (trace s6)"
          by (rule agrees_for_each [OF _ a5 loop]) (erule (1) agrees_show_prediction)
        have "(r = r6 \<and> s' = s6) \<or> (r = Inr () \<and> r6 = Inr () \<and> s' = plot Show s6)"
          using assms(2) Some Inr f res loop
          by (auto simp: cell_test_def Let_def s2_def s3_def s4_def s5_def idx_def
                   split: sum.splits)
        with a6 show ?thesis by (auto simp: plot_def)
      qed
    qed
  qed
qed

lemma agrees_notebook:
  assumes "c \<in> set (notebook env)" and "all_returned env (trace s)" and "c s = (r, s')"
  shows "outcome_agrees env r (trace s')"
  using assms
  by (auto simp: notebook_def
      intro: agrees_imports agrees_workspace agrees_load agrees_show_samples agrees_config
        agrees_submit agrees_widget agrees_metrics agrees_register agrees_test)

lemma agrees_run: "outcome_agrees env (fst (run_notebook env)) (trace (snd (run_notebook env)))"
proof (rule for_each_post [where Q = "\<lambda>q t. outcome_agrees env q (trace t)"
          and xs = "notebook env" and body = "\<lambda>c. c" and s = init_state])
  fix c t q t'
  assume "c \<in> set (notebook env)" and "outcome_agrees env (Inr ()) (trace t)" and "c t = (q, t')"
  then show "outcome_agrees env q (trace t')" using agrees_notebook [of c env t q t'] by simp
next
  show "outcome_agrees env (Inr ()) (trace init_state)"
    by (simp add: init_state_def all_returned_def)
next
  show "for_each (notebook env) (\<lambda>c. c) init_state
          = (fst (run_notebook env), snd (run_notebook env))"
    by (simp add: run_notebook_def run_cells_def)
qed

lemma agrees_butlast: "outcome_agrees env r tr \<Longrightarrow> all_returned env (butlast tr)"
  by (cases "(env, r, tr)" rule: outcome_agrees.cases)
     (auto simp: all_returned_def list_all_iff dest: in_set_butlastD)

lemma returned_before_last:
  "\<forall>ev \<in> set (butlast (trace (snd (run_notebook env)))). call_raises env ev = None"
  using agrees_butlast [OF agrees_run [of env]] by (simp add: all_returned_def list_all_iff)

text \<open>
  C6. In every run of the notebook, every SDK call but the last one issued has returned
  normally; if the last call issued raises \<open>x\<close>, the run ends with exactly that exception;
  and a run that ends with an SDK exception ends with the one its last call raised. So an
  exception of the workspace load, the job submission, the metric retrieval, the model
  registration or the prediction reaches the top level unchanged, and no call is issued
  after it: there is no recovery, no retry and no alternative branch.
\<close>

theorem sdk_errors_propagate_unhandled:
  "(\<forall>ev \<in> set (butlast (trace (snd (run_notebook env)))). call_raises env ev = None) \<and>
   (\<forall>x. trace (snd (run_notebook env)) \<noteq> [] \<and>
        call_raises env (last (trace (snd (run_notebook env)))) = Some x \<longrightarrow>
        fst (run_notebook env) = Inl (SdkError x)) \<and>
   (\<forall>x. fst (run_notebook env) = Inl (SdkError x) \<longrightarrow>
        trace (snd (run_notebook env)) \<noteq> [] \<and>
        call_raises env (last (trace (snd (run_notebook env)))) = Some x)"
proof -
  define r where "r = fst (run_notebook env)"
  define tr where "tr = trace (snd (run_notebook env))"
  have a: "outcome_agrees env r tr" unfolding r_def tr_def by (rule agrees_run)
  have ret: "all_returned env tr \<Longrightarrow>
               (\<forall>ev \<in> set (butlast tr). call_raises env ev = None) \<and>
               (\<forall>x. \<not> (tr \<noteq> [] \<and> call_raises env (last tr) = Some x))"
    using last_in_set [of tr]
    by (cases "tr = []") (auto simp: all_returned_def list_all_iff dest: in_set_butlastD)
  have "(\<forall>ev \<in> set (butlast tr). call_raises env ev = None) \<and>
        (\<forall>x. tr \<noteq> [] \<and> call_raises env (last tr) = Some x \<longrightarrow> r = Inl (SdkError x)) \<and>
        (\<forall>x. r = Inl (SdkError x) \<longrightarrow> tr \<noteq> [] \<and> call_raises env (last tr) = Some x)"
  proof (cases r)
    case (Inr u)
    with a have "all_returned env tr" by simp
    from ret [OF this] Inr show ?thesis by simp
  next
    case (Inl e)
    show ?thesis
    proof (cases e)
      case (SdkError x)
      with a Inl show ?thesis by (auto simp: all_returned_def list_all_iff)
    next
      case (NameError v)
      with a Inl have "all_returned env tr" by simp
      from ret [OF this] Inl NameError show ?thesis by simp
    next
      case (KeyError v)
      with a Inl have "all_returned env tr" by simp
      from ret [OF this] Inl KeyError show ?thesis by simp
    next
      case ValueError
      with a Inl have "all_returned env tr" by simp
      from ret [OF this] Inl ValueError show ?thesis by simp
    next
      case IndexError
      with a Inl have "all_returned env tr" by simp
      from ret [OF this] Inl IndexError show ?thesis by simp
    qed
  qed
  then show ?thesis unfolding r_def tr_def .
qed

lemma failing_trace:
  "trace (snd (run_notebook failing_sdk)) =
     [EvFromConfig, EvLoadDigits,
      EvAutoMLConfig (automl_kwargs (training_X failing_sdk) (training_y failing_sdk) ''./automl-classifier''),
      EvExperiment \<lparr> subscription_id = ''sub'', ws_name = ''w'',
                     resource_group = ''rg'', location = ''loc'' \<rparr> ''automl-classifier'',
      EvSubmit (Experiment \<lparr> subscription_id = ''sub'', ws_name = ''w'',
                     resource_group = ''rg'', location = ''loc'' \<rparr> ''automl-classifier'')
               (submitted_config failing_sdk) True]"
  by code_simp

theorem sdk_errors_propagate_unhandled_witness:
  "trace (snd (run_notebook failing_sdk)) \<noteq> [] \<and>
   call_raises failing_sdk (last (trace (snd (run_notebook failing_sdk)))) = Some ''quota exhausted'' \<and>
   fst (run_notebook failing_sdk) = Inl (SdkError ''quota exhausted'') \<and>
   EvFromConfig \<in> set (butlast (trace (snd (run_notebook failing_sdk)))) \<and>
   call_raises failing_sdk EvFromConfig = None"
proof -
  have h: "trace (snd (run_notebook failing_sdk)) \<noteq> [] \<and>
     call_raises failing_sdk (last (trace (snd (run_notebook failing_sdk)))) = Some ''quota exhausted''"
    by (simp add: failing_trace, simp add: failing_sdk_def raised_def)
  have m: "EvFromConfig \<in> set (butlast (trace (snd (run_notebook failing_sdk))))"
    by (simp add: failing_trace)
  from sdk_errors_propagate_unhandled [of failing_sdk] h m show ?thesis by blast
qed

subsection \<open>The order of the calls\<close>

lemma calls_show_sample:
  "show_sample i s = (r, s') \<Longrightarrow> trace s' = trace s \<and> local_run s' = local_run s"
  by (auto simp: show_sample_def plot_def Let_def split: option.splits sum.splits)

lemma calls_show_prediction:
  "show_prediction i s = (r, s') \<Longrightarrow> trace s' = trace s \<and> local_run s' = local_run s"
  by (auto simp: show_prediction_def plot_def Let_def split: option.splits sum.splits)

lemma calls_silent_loop:
  assumes "\<And>x t q t'. body x t = (q, t') \<Longrightarrow> trace t' = trace t \<and> local_run t' = local_run t"
    and "for_each xs body s = (r, s')"
  shows "trace s' = trace s \<and> local_run s' = local_run s"
proof (rule for_each_inv [where I = "\<lambda>t. trace t = trace s \<and> local_run t = local_run s",
        OF _ _ assms(2)])
  fix x t q t'
  assume "trace t = trace s \<and> local_run t = local_run s" and "body x t = (q, t')"
  with assms(1) [of x t q t'] show "trace t' = trace s \<and> local_run t' = local_run s" by simp
qed simp

lemma calls_workspace:
  "cell_workspace env s = (r, s') \<Longrightarrow> trace s' = trace s @ [EvFromConfig]"
  by (auto simp: cell_workspace_def log_call_def Let_def split: sum.splits)

lemma calls_load:
  "cell_load env s = (r, s') \<Longrightarrow> r = Inr () \<and> trace s' = trace s @ [EvLoadDigits]"
  by (auto simp: cell_load_def log_call_def Let_def)

lemma calls_show_samples:
  assumes "cell_show_samples env s = (r, s')"
  shows "trace s' = trace s"
proof (cases "X_digits s")
  case None
  with assms show ?thesis by (auto simp: cell_show_samples_def plot_def Let_def)
next
  case (Some X)
  define s2 where "s2 = (plot (Figure 16 6) (s\<lparr>count := Some 0, sample_size := Some 30\<rparr>))
                          \<lparr>rng := rng s + 1\<rparr>"
  obtain r3 s3 where loop:
    "for_each (take 30 (permutation env (rng s) (length X))) show_sample s2 = (r3, s3)"
    by (cases "for_each (take 30 (permutation env (rng s) (length X))) show_sample s2")
  have a3: "trace s3 = trace s2 \<and> local_run s3 = local_run s2"
    by (rule calls_silent_loop [OF _ loop]) (erule calls_show_sample)
  have "s' = s3 \<or> s' = plot Show s3"
    using assms Some loop
    by (auto simp: cell_show_samples_def Let_def s2_def plot_def split: sum.splits)
  with a3 show ?thesis by (auto simp: plot_def s2_def)
qed

lemma calls_config:
  "cell_config s = (r, s') \<Longrightarrow>
     (r = Inr () \<longrightarrow> (\<exists>kw. trace s' = trace s @ [EvAutoMLConfig kw])) \<and>
     (r \<noteq> Inr () \<longrightarrow> trace s' = trace s)"
  by (auto simp: cell_config_def log_call_def split: option.splits)

lemma calls_submit:
  "cell_submit env s = (r, s') \<Longrightarrow>
     \<exists>evs w nm cfg. trace s' = trace s @ evs \<and>
       prefix evs [EvExperiment w nm, EvSubmit (Experiment w nm) cfg True] \<and>
       (r = Inr () \<longrightarrow> evs = [EvExperiment w nm, EvSubmit (Experiment w nm) cfg True] \<and>
                     (\<exists>r0. local_run s' = Some r0))"
  by (auto simp: cell_submit_def log_call_def Let_def split: option.splits sum.splits)

lemma calls_widget:
  "local_run s = Some r0 \<Longrightarrow> cell_widget env s = (r, s') \<Longrightarrow>
     trace s' = trace s @ [EvRunDetails r0] \<and> local_run s' = Some r0"
  by (auto simp: cell_widget_def log_call_def Let_def split: sum.splits)

lemma calls_tabulate_run:
  "tabulate_run env x s = (r, s') \<Longrightarrow>
     local_run s' = local_run s \<and>
     (\<exists>evs. trace s' = trace s @ evs \<and> prefix evs [EvGetProperties x, EvGetMetrics x] \<and>
        (r = Inr () \<longrightarrow> evs = [EvGetProperties x, EvGetMetrics x]))"
  by (auto simp: tabulate_run_def log_call_def Let_def split: option.splits sum.splits)

lemma calls_tabulate_loop:
  "for_each cs (tabulate_run env) s = (r, s') \<Longrightarrow>
     local_run s' = local_run s \<and>
     (\<exists>evs. trace s' = trace s @ evs \<and> prefix evs (child_calls cs) \<and>
        (r = Inr () \<longrightarrow> evs = child_calls cs))"
proof (induction cs arbitrary: s)
  case Nil
  then show ?case by (auto simp: child_calls_def)
next
  case (Cons x cs)
  obtain r1 s1 where b: "tabulate_run env x s = (r1, s1)" by (cases "tabulate_run env x s")
  from calls_tabulate_run [OF b] obtain e1
    where l1: "local_run s1 = local_run s" and t1: "trace s1 = trace s @ e1"
      and p1: "prefix e1 [EvGetProperties x, EvGetMetrics x]"
      and f1: "r1 = Inr () \<longrightarrow> e1 = [EvGetProperties x, EvGetMetrics x]"
    by blast
  show ?case
  proof (cases r1)
    case (Inl e)
    with b Cons.prems have "r = Inl e" "s' = s1" by simp_all
    moreover have "prefix e1 (child_calls (x # cs))"
      using p1 by (simp add: child_calls_def prefix_def) (metis append.assoc append_Cons append_Nil)
    ultimately show ?thesis using l1 t1 by auto
  next
    case (Inr u)
    with b Cons.prems have run: "for_each cs (tabulate_run env) s1 = (r, s')" by simp
    from Cons.IH [OF run] obtain e2
      where l2: "local_run s' = local_run s1" and t2: "trace s' = trace s1 @ e2"
        and p2: "prefix e2 (child_calls cs)" and f2: "r = Inr () \<longrightarrow> e2 = child_calls cs"
      by blast
    from Inr f1 have e1: "e1 = [EvGetProperties x, EvGetMetrics x]" by simp
    have "trace s' = trace s @ (e1 @ e2)" using t1 t2 by simp
    moreover have "prefix (e1 @ e2) (child_calls (x # cs))"
      using p2 by (simp add: e1 child_calls_def)
    moreover have "r = Inr () \<longrightarrow> e1 @ e2 = child_calls (x # cs)"
      using f2 by (simp add: e1 child_calls_def)
    ultimately show ?thesis using l1 l2
      by (intro conjI exI [where x = "e1 @ e2"]) simp_all
  qed
qed

lemma calls_metrics:
  assumes "local_run s = Some r0" and "cell_metrics env s = (r, s')"
  shows "local_run s' = Some r0 \<and>
         (\<exists>cs evs. trace s' = trace s @ EvGetChildren r0 # evs \<and> prefix evs (child_calls cs) \<and>
            (r = Inr () \<longrightarrow> evs = child_calls cs))"
proof (cases "get_children env r0")
  case (Inl x)
  with assms have "trace s' = trace s @ EvGetChildren r0 # []" "local_run s' = Some r0" "r \<noteq> Inr ()"
    by (auto simp: cell_metrics_def log_call_def Let_def)
  then show ?thesis by (metis Nil_prefix)
next
  case (Inr cs)
  define s2 where
    "s2 = (log_call (EvGetChildren r0) s)\<lparr>children := Some cs, metricslist := Some []\<rparr>"
  obtain r3 s3 where loop: "for_each cs (tabulate_run env) s2 = (r3, s3)"
    by (cases "for_each cs (tabulate_run env) s2")
  from calls_tabulate_loop [OF loop] obtain evs
    where l3: "local_run s3 = local_run s2" and t3: "trace s3 = trace s2 @ evs"
      and p3: "prefix evs (child_calls cs)" and f3: "r3 = Inr () \<longrightarrow> evs = child_calls cs"
    by blast
  have "(r = r3 \<and> s' = s3) \<or> (r3 = Inr () \<and> trace s' = trace s3 \<and> local_run s' = local_run s3)"
    using assms Inr loop
    by (auto simp: cell_metrics_def Let_def s2_def split: sum.splits option.splits)
  moreover have "trace s2 = trace s @ [EvGetChildren r0]" "local_run s2 = Some r0"
    using assms(1) by (simp_all add: s2_def log_call_def)
  ultimately have "local_run s' = Some r0 \<and> trace s' = trace s @ EvGetChildren r0 # evs \<and>
      (r = Inr () \<longrightarrow> evs = child_calls cs)"
    using l3 t3 f3 by auto
  with p3 show ?thesis by blast
qed

lemma calls_register:
  "local_run s = Some r0 \<Longrightarrow> cell_register env s = (r, s') \<Longrightarrow>
     (\<exists>evs. trace s' = trace s @ evs \<and>
        prefix evs [EvGetOutput r0, EvRegisterModel r0 ''Automated Machine Learning Model'' PyNone] \<and>
        (r = Inr () \<longrightarrow>
           evs = [EvGetOutput r0, EvRegisterModel r0 ''Automated Machine Learning Model'' PyNone]))"
  by (auto simp: cell_register_def log_call_def Let_def split: sum.splits prod.splits)

lemma calls_test:
  assumes "cell_test env s = (r, s')"
  shows "\<exists>evs f rows. trace s' = trace s @ evs \<and> prefix evs [EvPredict f rows] \<and>
           (r = Inr () \<longrightarrow> evs = [EvPredict f rows])"
proof -
  have none: "trace s' = trace s \<Longrightarrow> r \<noteq> Inr () \<Longrightarrow> ?thesis"
    by (metis Nil_prefix append_Nil2)
  show ?thesis
  proof (cases "X_digits s")
    case None
    with assms have "trace s' = trace s" "r \<noteq> Inr ()" by (auto simp: cell_test_def Let_def)
    then show ?thesis by (rule none)
  next
    case (Some X)
    define idx where "idx = take 30 (permutation env (rng s) (length X))"
    show ?thesis
    proof (cases "take_rows X idx")
      case (Inl e)
      with assms Some have "trace s' = trace s" "r \<noteq> Inr ()"
        by (auto simp: cell_test_def Let_def idx_def)
      then show ?thesis by (rule none)
    next
      case (Inr ts)
      show ?thesis
      proof (cases "fitted_model s")
        case None
        with assms Some Inr have "trace s' = trace s" "r \<noteq> Inr ()"
          by (auto simp: cell_test_def Let_def idx_def)
        then show ?thesis by (rule none)
      next
        case f: (Some f)
        define s4 where "s4 = log_call (EvPredict f ts)
           (s\<lparr>var_n := Some 30, rng := rng s + 1, sample_indices := Some idx,
              test_samples := Some ts\<rparr>)"
        have t4: "trace s4 = trace s @ [EvPredict f ts]" by (simp add: s4_def log_call_def)
        show ?thesis
        proof (cases "predict env f ts")
          case (Inl x)
          with assms Some Inr f have "s' = s4"
            by (simp add: cell_test_def Let_def s4_def idx_def)
          with t4 show ?thesis by auto
        next
          case res: (Inr res)
          define s5 where "s5 = plot (Figure 20 1) (s4\<lparr>result := Some res, var_i := Some 0\<rparr>)"
          obtain r6 s6 where loop: "for_each idx show_prediction s5 = (r6, s6)"
            by (cases "for_each idx show_prediction s5")
          have a6: "trace s6 = trace s5 \<and> local_run s6 = local_run s5"
            by (rule calls_silent_loop [OF _ loop]) (erule calls_show_prediction)
          have "s' = s6 \<or> s' = plot Show s6"
            using assms Some Inr f res loop
            by (auto simp: cell_test_def Let_def s4_def s5_def idx_def split: sum.splits)
          with a6 t4 have "trace s' = trace s @ [EvPredict f ts]"
            by (auto simp: s5_def plot_def)
          then show ?thesis by auto
        qed
      qed
    qed
  qed
qed


lemma peel:
  assumes "for_each (c # cs) (\<lambda>c. c) s = (r, s')" and "c s = (q, t)"
  shows "(q \<noteq> Inr () \<and> r = q \<and> s' = t) \<or> (q = Inr () \<and> for_each cs (\<lambda>c. c) t = (r, s'))"
  using assms by (cases q) auto

lemma in_orderI:
  assumes "prefix tr (full_trace w nm kw cfg r0 cs f rows)"
    and "r = Inr () \<longrightarrow> tr = full_trace w nm kw cfg r0 cs f rows"
  shows "in_order r tr"
  unfolding in_order_def using assms by blast

lemma order_test:
  assumes "trace s = [EvFromConfig, EvLoadDigits, EvAutoMLConfig kw, EvExperiment w nm,
                      EvSubmit (Experiment w nm) cfg True, EvRunDetails r0, EvGetChildren r0]
                     @ child_calls cs
                     @ [EvGetOutput r0, EvRegisterModel r0 ''Automated Machine Learning Model'' PyNone]"
    and "for_each [cell_test env] (\<lambda>c. c) s = (r, s')"
  shows "in_order r (trace s')"
proof -
  obtain q t where c: "cell_test env s = (q, t)" by (cases "cell_test env s")
  from calls_test [OF c] obtain evs f rows
    where t: "trace t = trace s @ evs" and p: "prefix evs [EvPredict f rows]"
      and e: "q = Inr () \<longrightarrow> evs = [EvPredict f rows]"
    by blast
  from peel [OF assms(2) c] have rs: "r = q \<and> s' = t" by auto
  show ?thesis
  proof (rule in_orderI [where w = w and nm = nm and kw = kw and cfg = cfg and ?r0.0 = r0
            and cs = cs and f = f and rows = rows])
    show "prefix (trace s') (full_trace w nm kw cfg r0 cs f rows)"
      using rs t p by (simp add: assms(1) full_trace_def)
    show "r = Inr () \<longrightarrow> trace s' = full_trace w nm kw cfg r0 cs f rows"
      using rs t e by (simp add: assms(1) full_trace_def)
  qed
qed

lemma order_register:
  assumes "trace s = [EvFromConfig, EvLoadDigits, EvAutoMLConfig kw, EvExperiment w nm,
                      EvSubmit (Experiment w nm) cfg True, EvRunDetails r0, EvGetChildren r0]
                     @ child_calls cs"
    and "local_run s = Some r0"
    and "for_each [cell_register env, cell_test env] (\<lambda>c. c) s = (r, s')"
  shows "in_order r (trace s')"
proof -
  obtain q t where c: "cell_register env s = (q, t)" by (cases "cell_register env s")
  from calls_register [OF assms(2) c] obtain evs
    where t: "trace t = trace s @ evs"
      and p: "prefix evs [EvGetOutput r0, EvRegisterModel r0 ''Automated Machine Learning Model'' PyNone]"
      and e: "q = Inr () \<longrightarrow>
                evs = [EvGetOutput r0, EvRegisterModel r0 ''Automated Machine Learning Model'' PyNone]"
    by blast
  from peel [OF assms(3) c] show ?thesis
  proof
    assume stop: "q \<noteq> Inr () \<and> r = q \<and> s' = t"
    show ?thesis
    proof (rule in_orderI [where w = w and nm = nm and kw = kw and cfg = cfg and ?r0.0 = r0
              and cs = cs and f = undefined and rows = "[]"])
      have "prefix evs ([EvGetOutput r0,
                EvRegisterModel r0 ''Automated Machine Learning Model'' PyNone]
                @ [EvPredict undefined []])"
        using p by (rule prefix_prefix)
      then show "prefix (trace s') (full_trace w nm kw cfg r0 cs undefined [])"
        using stop t by (simp add: assms(1) full_trace_def)
      show "r = Inr () \<longrightarrow> trace s' = full_trace w nm kw cfg r0 cs undefined []"
        using stop by simp
    qed
  next
    assume go: "q = Inr () \<and> for_each [cell_test env] (\<lambda>c. c) t = (r, s')"
    with t e have "trace t = [EvFromConfig, EvLoadDigits, EvAutoMLConfig kw, EvExperiment w nm,
                      EvSubmit (Experiment w nm) cfg True, EvRunDetails r0, EvGetChildren r0]
                     @ child_calls cs
                     @ [EvGetOutput r0, EvRegisterModel r0 ''Automated Machine Learning Model'' PyNone]"
      by (simp add: assms(1))
    from order_test [OF this] go show ?thesis by blast
  qed
qed


lemma order_metrics:
  assumes "trace s = [EvFromConfig, EvLoadDigits, EvAutoMLConfig kw, EvExperiment w nm,
                      EvSubmit (Experiment w nm) cfg True, EvRunDetails r0]"
    and "local_run s = Some r0"
    and "for_each [cell_metrics env, cell_register env, cell_test env] (\<lambda>c. c) s = (r, s')"
  shows "in_order r (trace s')"
proof -
  obtain q t where c: "cell_metrics env s = (q, t)" by (cases "cell_metrics env s")
  from calls_metrics [OF assms(2) c] obtain cs evs
    where l: "local_run t = Some r0" and t: "trace t = trace s @ EvGetChildren r0 # evs"
      and p: "prefix evs (child_calls cs)" and e: "q = Inr () \<longrightarrow> evs = child_calls cs"
    by blast
  from peel [OF assms(3) c] show ?thesis
  proof
    assume stop: "q \<noteq> Inr () \<and> r = q \<and> s' = t"
    show ?thesis
    proof (rule in_orderI [where w = w and nm = nm and kw = kw and cfg = cfg and ?r0.0 = r0
              and cs = cs and f = undefined and rows = "[]"])
      have "prefix evs (child_calls cs @ [EvGetOutput r0,
                EvRegisterModel r0 ''Automated Machine Learning Model'' PyNone,
                EvPredict undefined []])"
        using p by (rule prefix_prefix)
      then show "prefix (trace s') (full_trace w nm kw cfg r0 cs undefined [])"
        using stop t by (simp add: assms(1) full_trace_def)
      show "r = Inr () \<longrightarrow> trace s' = full_trace w nm kw cfg r0 cs undefined []"
        using stop by simp
    qed
  next
    assume go: "q = Inr () \<and> for_each [cell_register env, cell_test env] (\<lambda>c. c) t = (r, s')"
    with t e have "trace t = [EvFromConfig, EvLoadDigits, EvAutoMLConfig kw, EvExperiment w nm,
                      EvSubmit (Experiment w nm) cfg True, EvRunDetails r0, EvGetChildren r0]
                     @ child_calls cs"
      by (simp add: assms(1))
    from order_register [OF this l] go show ?thesis by blast
  qed
qed

lemma order_widget:
  assumes "trace s = [EvFromConfig, EvLoadDigits, EvAutoMLConfig kw, EvExperiment w nm,
                      EvSubmit (Experiment w nm) cfg True]"
    and "local_run s = Some r0"
    and "for_each [cell_widget env, cell_metrics env, cell_register env, cell_test env]
           (\<lambda>c. c) s = (r, s')"
  shows "in_order r (trace s')"
proof -
  obtain q t where c: "cell_widget env s = (q, t)" by (cases "cell_widget env s")
  from calls_widget [OF assms(2) c]
  have t: "trace t = trace s @ [EvRunDetails r0]" and l: "local_run t = Some r0" by simp_all
  from peel [OF assms(3) c] show ?thesis
  proof
    assume stop: "q \<noteq> Inr () \<and> r = q \<and> s' = t"
    show ?thesis
    proof (rule in_orderI [where w = w and nm = nm and kw = kw and cfg = cfg and ?r0.0 = r0
              and cs = "[]" and f = undefined and rows = "[]"])
      show "prefix (trace s') (full_trace w nm kw cfg r0 [] undefined [])"
        using stop t by (simp add: assms(1) full_trace_def)
      show "r = Inr () \<longrightarrow> trace s' = full_trace w nm kw cfg r0 [] undefined []"
        using stop by simp
    qed
  next
    assume go: "q = Inr () \<and>
      for_each [cell_metrics env, cell_register env, cell_test env] (\<lambda>c. c) t = (r, s')"
    from t have "trace t = [EvFromConfig, EvLoadDigits, EvAutoMLConfig kw, EvExperiment w nm,
                      EvSubmit (Experiment w nm) cfg True, EvRunDetails r0]"
      by (simp add: assms(1))
    from order_metrics [OF this l] go show ?thesis by blast
  qed
qed

lemma order_submit:
  assumes "trace s = [EvFromConfig, EvLoadDigits, EvAutoMLConfig kw]"
    and "for_each [cell_submit env, cell_widget env, cell_metrics env, cell_register env,
                   cell_test env] (\<lambda>c. c) s = (r, s')"
  shows "in_order r (trace s')"
proof -
  obtain q t where c: "cell_submit env s = (q, t)" by (cases "cell_submit env s")
  from calls_submit [OF c] obtain evs w nm cfg
    where t: "trace t = trace s @ evs"
      and p: "prefix evs [EvExperiment w nm, EvSubmit (Experiment w nm) cfg True]"
      and e: "q = Inr () \<longrightarrow> evs = [EvExperiment w nm, EvSubmit (Experiment w nm) cfg True] \<and>
                (\<exists>r0. local_run t = Some r0)"
    by blast
  from peel [OF assms(2) c] show ?thesis
  proof
    assume stop: "q \<noteq> Inr () \<and> r = q \<and> s' = t"
    show ?thesis
    proof (rule in_orderI [where w = w and nm = nm and kw = kw and cfg = cfg
              and ?r0.0 = undefined and cs = "[]" and f = undefined and rows = "[]"])
      have "prefix evs ([EvExperiment w nm, EvSubmit (Experiment w nm) cfg True]
               @ [EvRunDetails undefined, EvGetChildren undefined]
               @ child_calls []
               @ [EvGetOutput undefined,
                  EvRegisterModel undefined ''Automated Machine Learning Model'' PyNone,
                  EvPredict undefined []])"
        using p by (rule prefix_prefix)
      then show "prefix (trace s') (full_trace w nm kw cfg undefined [] undefined [])"
        using stop t by (simp add: assms(1) full_trace_def)
      show "r = Inr () \<longrightarrow> trace s' = full_trace w nm kw cfg undefined [] undefined []"
        using stop by simp
    qed
  next
    assume go: "q = Inr () \<and>
      for_each [cell_widget env, cell_metrics env, cell_register env, cell_test env]
        (\<lambda>c. c) t = (r, s')"
    with e obtain r0 where l: "local_run t = Some r0" by blast
    from go t e have "trace t = [EvFromConfig, EvLoadDigits, EvAutoMLConfig kw, EvExperiment w nm,
                      EvSubmit (Experiment w nm) cfg True]"
      by (simp add: assms(1))
    from order_widget [OF this l] go show ?thesis by blast
  qed
qed

lemma order_start:
  "prefix [EvFromConfig] (full_trace undefined [] [] undefined undefined [] undefined [])"
  "prefix [EvFromConfig, EvLoadDigits]
     (full_trace undefined [] [] undefined undefined [] undefined [])"
  by (simp_all add: full_trace_def)

lemma order_config:
  assumes "trace s = [EvFromConfig, EvLoadDigits]"
    and "for_each [cell_config, cell_submit env, cell_widget env, cell_metrics env,
                   cell_register env, cell_test env] (\<lambda>c. c) s = (r, s')"
  shows "in_order r (trace s')"
proof -
  obtain q t where c: "cell_config s = (q, t)" by (cases "cell_config s")
  note k = calls_config [OF c]
  from peel [OF assms(2) c] show ?thesis
  proof
    assume stop: "q \<noteq> Inr () \<and> r = q \<and> s' = t"
    with k have "trace s' = [EvFromConfig, EvLoadDigits]" by (simp add: assms(1))
    with order_start(2) stop show ?thesis by (auto intro: in_orderI)
  next
    assume go: "q = Inr () \<and>
      for_each [cell_submit env, cell_widget env, cell_metrics env, cell_register env,
                cell_test env] (\<lambda>c. c) t = (r, s')"
    with k obtain kw where "trace t = [EvFromConfig, EvLoadDigits, EvAutoMLConfig kw]"
      by (auto simp: assms(1))
    from order_submit [OF this] go show ?thesis by blast
  qed
qed

lemma order_show_samples:
  assumes "trace s = [EvFromConfig, EvLoadDigits]"
    and "for_each [cell_show_samples env, cell_config, cell_submit env, cell_widget env,
                   cell_metrics env, cell_register env, cell_test env] (\<lambda>c. c) s = (r, s')"
  shows "in_order r (trace s')"
proof -
  obtain q t where c: "cell_show_samples env s = (q, t)" by (cases "cell_show_samples env s")
  from calls_show_samples [OF c] have t: "trace t = [EvFromConfig, EvLoadDigits]"
    by (simp add: assms(1))
  from peel [OF assms(2) c] show ?thesis
  proof
    assume stop: "q \<noteq> Inr () \<and> r = q \<and> s' = t"
    with order_start(2) t show ?thesis by (auto intro: in_orderI)
  next
    assume go: "q = Inr () \<and>
      for_each [cell_config, cell_submit env, cell_widget env, cell_metrics env,
                cell_register env, cell_test env] (\<lambda>c. c) t = (r, s')"
    from order_config [OF t] go show ?thesis by blast
  qed
qed

lemma order_run: "in_order (fst (run_notebook env)) (trace (snd (run_notebook env)))"
proof -
  define r where "r = fst (run_notebook env)"
  define s' where "s' = snd (run_notebook env)"
  have run: "for_each (cell_imports # cell_workspace env # cell_load env #
               [cell_show_samples env, cell_config, cell_submit env, cell_widget env,
                cell_metrics env, cell_register env, cell_test env]) (\<lambda>c. c) init_state = (r, s')"
    by (simp add: r_def s'_def run_notebook_def run_cells_def notebook_def)
  have c0: "cell_imports init_state = (Inr (), init_state)" by (simp add: cell_imports_def)
  from peel [OF run c0]
  have run1: "for_each (cell_workspace env # cell_load env #
               [cell_show_samples env, cell_config, cell_submit env, cell_widget env,
                cell_metrics env, cell_register env, cell_test env]) (\<lambda>c. c) init_state = (r, s')"
    by simp
  obtain q1 t1 where c1: "cell_workspace env init_state = (q1, t1)"
    by (cases "cell_workspace env init_state")
  from calls_workspace [OF c1] have t1: "trace t1 = [EvFromConfig]" by (simp add: init_state_def)
  from peel [OF run1 c1] have "in_order r (trace s')"
  proof
    assume stop: "q1 \<noteq> Inr () \<and> r = q1 \<and> s' = t1"
    with order_start(1) t1 show ?thesis by (auto intro: in_orderI)
  next
    assume go: "q1 = Inr () \<and> for_each (cell_load env #
               [cell_show_samples env, cell_config, cell_submit env, cell_widget env,
                cell_metrics env, cell_register env, cell_test env]) (\<lambda>c. c) t1 = (r, s')"
    obtain q2 t2 where c2: "cell_load env t1 = (q2, t2)" by (cases "cell_load env t1")
    from calls_load [OF c2] t1 have q2: "q2 = Inr ()" and t2: "trace t2 = [EvFromConfig, EvLoadDigits]"
      by simp_all
    from go have run2: "for_each (cell_load env #
               [cell_show_samples env, cell_config, cell_submit env, cell_widget env,
                cell_metrics env, cell_register env, cell_test env]) (\<lambda>c. c) t1 = (r, s')"
      by simp
    from peel [OF run2 c2] q2
    have "for_each [cell_show_samples env, cell_config, cell_submit env, cell_widget env,
                cell_metrics env, cell_register env, cell_test env] (\<lambda>c. c) t2 = (r, s')"
      by blast
    from order_show_samples [OF t2 this] show ?thesis .
  qed
  then show ?thesis by (simp add: r_def s'_def)
qed

lemma submits_of_child_calls: "filter is_submit (child_calls cs) = []"
  by (induction cs) (simp_all add: child_calls_def)

lemma submits_of_full_trace:
  "filter is_submit (full_trace w nm kw cfg r0 cs f rows) = [EvSubmit (Experiment w nm) cfg True]"
  by (simp add: full_trace_def submits_of_child_calls)

text \<open>
  C7. In every run of the notebook the calls issued are an initial part of the sequence
  workspace load, dataset load, configuration construction, experiment construction, job
  submission, run details, child runs, properties and metrics of each child run in turn,
  best model, model registration, prediction; a run that completes has issued all of them
  in this order. The job submission is issued at most once, and exactly once in a run that
  completes. Every call but the last has returned before the next is issued, so the results
  stages run only after the submission has returned. No other call is ever issued.
\<close>

theorem calls_follow_stage_order:
  "(\<exists>w nm kw cfg r0 cs f rows.
      prefix (trace (snd (run_notebook env))) (full_trace w nm kw cfg r0 cs f rows) \<and>
      (fst (run_notebook env) = Inr () \<longrightarrow>
         trace (snd (run_notebook env)) = full_trace w nm kw cfg r0 cs f rows)) \<and>
   length (filter is_submit (trace (snd (run_notebook env)))) \<le> 1 \<and>
   (fst (run_notebook env) = Inr () \<longrightarrow>
      length (filter is_submit (trace (snd (run_notebook env)))) = 1) \<and>
   (\<forall>ev \<in> set (butlast (trace (snd (run_notebook env)))). call_raises env ev = None)"
proof -
  from order_run [of env] obtain w nm kw cfg r0 cs f rows
    where p: "prefix (trace (snd (run_notebook env))) (full_trace w nm kw cfg r0 cs f rows)"
      and e: "fst (run_notebook env) = Inr () \<longrightarrow>
                trace (snd (run_notebook env)) = full_trace w nm kw cfg r0 cs f rows"
    unfolding in_order_def by blast
  from p have "prefix (filter is_submit (trace (snd (run_notebook env))))
                 (filter is_submit (full_trace w nm kw cfg r0 cs f rows))"
    by (rule filter_mono_prefix)
  then have le: "length (filter is_submit (trace (snd (run_notebook env)))) \<le> 1"
    using prefix_length_le by (fastforce simp: submits_of_full_trace)
  from e have one: "fst (run_notebook env) = Inr () \<longrightarrow>
      length (filter is_submit (trace (snd (run_notebook env)))) = 1"
    by (auto simp: submits_of_full_trace)
  from p e le one returned_before_last [of env] show ?thesis by blast
qed

theorem calls_follow_stage_order_witness:
  "fst (run_notebook tiny_sdk) = Inr () \<and>
   (\<exists>w nm kw cfg r0 cs f rows.
      trace (snd (run_notebook tiny_sdk)) = full_trace w nm kw cfg r0 cs f rows) \<and>
   length (filter is_submit (trace (snd (run_notebook tiny_sdk)))) = 1 \<and>
   EvLoadDigits \<in> set (butlast (trace (snd (run_notebook tiny_sdk)))) \<and>
   call_raises tiny_sdk EvLoadDigits = None"
proof -
  have m: "EvLoadDigits \<in> set (butlast (trace (snd (run_notebook tiny_sdk))))"
    by (simp add: tiny_trace)
  from calls_follow_stage_order [of tiny_sdk] tiny_result m show ?thesis by blast
qed

end
